theory Spec2Isabelle
  imports Complex_Main "HOL-Library.Sublist" "HOL-Library.Multiset"
begin

section \<open>Python primitives used by the sources\<close>

text \<open>
  Python strings are modelled as \<open>string\<close>; a character stands for a code point below
  256.  Python integers are \<open>int\<close>; the result of \<open>len()\<close> is a \<open>nat\<close>.  Python floats
  (seconds) are idealised as \<open>real\<close>: no rounding is modelled.
\<close>

datatype py_exn =
    ValueError string
  | KeyError string
  | IOError string
  | ModelError string

text \<open>\<open>str.isspace\<close> and the regular expression class \<open>\s\<close> on code points below 256.\<close>

definition is_space :: "char \<Rightarrow> bool" where
  "is_space c = (let n = (of_char c :: nat)
                 in (9 \<le> n \<and> n \<le> 13) \<or> (28 \<le> n \<and> n \<le> 32) \<or> n = 133 \<or> n = 160)"

text \<open>\<open>s.replace(old, new)\<close>: every non-overlapping occurrence, scanning left to right once.\<close>

function py_replace :: "string \<Rightarrow> string \<Rightarrow> string \<Rightarrow> string" where
  "py_replace old new [] = (if old = [] then new else [])"
| "py_replace old new (c # cs) =
     (if old = [] then new @ concat (map (\<lambda>x. x # new) (c # cs))
      else if prefix old (c # cs) then new @ py_replace old new (drop (length old) (c # cs))
      else c # py_replace old new cs)"
  by pat_completeness auto
termination
  by (relation "measure (\<lambda>(old, new, s). length s)") (auto simp: neq_Nil_conv)

text \<open>\<open>s.split(sep)\<close> for a one-character separator: the result is never empty.\<close>

fun py_split :: "char \<Rightarrow> string \<Rightarrow> string list" where
  "py_split sep [] = [[]]"
| "py_split sep (c # cs) =
     (if c = sep then [] # py_split sep cs
      else (case py_split sep cs of p # ps \<Rightarrow> (c # p) # ps | [] \<Rightarrow> [[c]]))"

text \<open>\<open>s.split()\<close>: the maximal runs of characters that are not whitespace.\<close>

fun split_ws :: "string \<Rightarrow> string \<Rightarrow> string list" where
  "split_ws cur [] = (if cur = [] then [] else [cur])"
| "split_ws cur (c # cs) =
     (if is_space c then (if cur = [] then split_ws [] cs else cur # split_ws [] cs)
      else split_ws (cur @ [c]) cs)"

definition py_split_ws :: "string \<Rightarrow> string list" where
  "py_split_ws s = split_ws [] s"

text \<open>\<open>sep.join(xs)\<close>.\<close>

fun py_join :: "string \<Rightarrow> string list \<Rightarrow> string" where
  "py_join sep [] = []"
| "py_join sep [x] = x"
| "py_join sep (x # y # zs) = x @ sep @ py_join sep (y # zs)"

text \<open>\<open>s.strip()\<close>.\<close>

definition py_strip :: "string \<Rightarrow> string" where
  "py_strip s = rev (dropWhile is_space (rev (dropWhile is_space s)))"

definition is_digit :: "char \<Rightarrow> bool" where
  "is_digit c = (c \<in> set ''0123456789'')"

definition digit_val :: "char \<Rightarrow> nat" where
  "digit_val c = of_char c - 48"

definition digits_val :: "string \<Rightarrow> nat" where
  "digits_val ds = foldl (\<lambda>a c. 10 * a + digit_val c) 0 ds"

text \<open>
  \<open>int(s)\<close> in base 10: surrounding whitespace and one sign are accepted, anything
  else raises \<open>ValueError\<close>.  (Python also accepts single underscores between digits; the
  only caller passes a piece of \<open>split('_')\<close>, which has none.)
\<close>

definition py_int :: "string \<Rightarrow> py_exn + int" where
  "py_int s =
     (let t = py_strip s;
          neg = (t \<noteq> [] \<and> hd t = CHR ''-'');
          ds = (if t \<noteq> [] \<and> (hd t = CHR ''-'' \<or> hd t = CHR ''+'') then tl t else t)
      in if ds \<noteq> [] \<and> list_all is_digit ds
         then Inr (if neg then - int (digits_val ds) else int (digits_val ds))
         else Inl (ValueError s))"

definition digit_of :: "nat \<Rightarrow> char" where
  "digit_of d = ''0123456789'' ! d"

text \<open>\<open>str(n)\<close> for a natural number.\<close>

function str_of_nat :: "nat \<Rightarrow> string" where
  "str_of_nat n = (if n < 10 then [digit_of n] else str_of_nat (n div 10) @ [digit_of (n mod 10)])"
  by pat_completeness auto
termination
  by (relation "measure id") auto

declare str_of_nat.simps [simp del]

text \<open>The format \<open>{i:03d}\<close>: decimal, padded with zeros on the left to width 3.\<close>

definition fmt03 :: "nat \<Rightarrow> string" where
  "fmt03 i = (let s = str_of_nat i in replicate (3 - length s) CHR ''0'' @ s)"

text \<open>\<open>os.path.join(a, b)\<close> on POSIX.\<close>

definition os_path_join :: "string \<Rightarrow> string \<Rightarrow> string" where
  "os_path_join a b =
     (if b \<noteq> [] \<and> hd b = CHR ''/'' then b
      else if a = [] \<or> last a = CHR ''/'' then a @ b
      else a @ ''/'' @ b)"

text \<open>
  \<open>PurePath.stem\<close> of a file name: the name without its last suffix.  A name whose
  last dot is its first or its last character has no suffix (\<open>.wav\<close> is its own stem).
\<close>

definition py_stem :: "string \<Rightarrow> string" where
  "py_stem name =
     (let k = length (takeWhile (\<lambda>c. c \<noteq> CHR ''.'') (rev name))
      in if 0 < k \<and> Suc k < length name then take (length name - Suc k) name else name)"

text \<open>The first error of a list of results, or all the values.\<close>

fun collect :: "('e + 'a) list \<Rightarrow> 'e + 'a list" where
  "collect [] = Inr []"
| "collect (x # xs) =
     (case x of Inl e \<Rightarrow> Inl e
      | Inr v \<Rightarrow> (case collect xs of Inl e \<Rightarrow> Inl e | Inr vs \<Rightarrow> Inr (v # vs)))"

section \<open>The cleanup filter (clean\_lecture\_notes.py, lines 22--33)\<close>

text \<open>
  A matcher is one compiled pattern: given the character before the position (\<open>None\<close>
  at the start of the text) and the text from the position on, it returns the length of
  the match the backtracking engine finds there, if any.
\<close>

type_synonym matcher = "char option \<Rightarrow> string \<Rightarrow> nat option"

text \<open>
  \<open>re.sub(pattern, repl, text)\<close>: the leftmost matches, scanning from left to right; a
  match is replaced and the scan goes on after it; an empty match is replaced and one
  character is copied.
\<close>

function re_sub :: "matcher \<Rightarrow> string \<Rightarrow> char option \<Rightarrow> string \<Rightarrow> string" where
  "re_sub m repl prev [] = (case m prev [] of None \<Rightarrow> [] | Some n \<Rightarrow> repl)"
| "re_sub m repl prev (c # cs) =
     (case m prev (c # cs) of
        None \<Rightarrow> c # re_sub m repl (Some c) cs
      | Some n \<Rightarrow>
          if n = 0 then repl @ c # re_sub m repl (Some c) cs
          else repl @ re_sub m repl (Some (last (take n (c # cs)))) (drop n (c # cs)))"
  by pat_completeness auto
termination
  by (relation "measure (\<lambda>(m, repl, prev, s). length s)") auto

text \<open>\<open>^\<close> and \<open>$\<close> under \<open>re.MULTILINE\<close>.\<close>

definition at_line_start :: "char option \<Rightarrow> bool" where
  "at_line_start prev = (case prev of None \<Rightarrow> True | Some c \<Rightarrow> c = CHR 0x0A)"

definition at_line_end :: "string \<Rightarrow> bool" where
  "at_line_end rest = (case rest of [] \<Rightarrow> True | c # _ \<Rightarrow> c = CHR 0x0A)"

text \<open>
  The patterns \<open>^# <think>\s*$\<close>, \<open>^### <think>\s*$\<close> and \<open>^</think>\s*$\<close>
  (MULTILINE) for the literal \<open>lit\<close>: the greedy \<open>\s*\<close> takes all the whitespace after
  the literal and gives characters back one by one until \<open>$\<close> matches.
\<close>

definition marker_line :: "string \<Rightarrow> matcher" where
  "marker_line lit prev rest =
     (if at_line_start prev \<and> prefix lit rest
      then (let after = drop (length lit) rest;
                k = length (takeWhile is_space after)
            in map_option (\<lambda>j. length lit + j)
                 (List.find (\<lambda>j. at_line_end (drop j after)) (rev [0..<Suc k])))
      else None)"

text \<open>The index of the first occurrence of \<open>pat\<close>.\<close>

fun find_sub :: "string \<Rightarrow> string \<Rightarrow> nat option" where
  "find_sub pat [] = (if pat = [] then Some 0 else None)"
| "find_sub pat (c # cs) =
     (if prefix pat (c # cs) then Some 0 else map_option Suc (find_sub pat cs))"

text \<open>
  The pattern \<open><think>.*?</think>\<close> (DOTALL): the lazy \<open>.*?\<close> stops at the first closing
  marker after the opening one.
\<close>

definition think_region :: matcher where
  "think_region prev rest =
     (if prefix ''<think>'' rest
      then map_option (\<lambda>k. 7 + k + 8) (find_sub ''</think>'' (drop 7 rest))
      else None)"

text \<open>The pattern \<open>\n{3,}\<close>: a whole run of at least three newlines.\<close>

definition newline_run :: matcher where
  "newline_run prev rest =
     (let k = length (takeWhile (\<lambda>c. c = CHR 0x0A) rest)
      in if 3 \<le> k then Some k else None)"

text \<open>The transformation of the file's content, statement by statement.\<close>

definition clean_content :: "string \<Rightarrow> string" where
  "clean_content content0 =
    (let content1 = re_sub (marker_line ''# <think>'') [] None content0;
         content2 = re_sub (marker_line ''### <think>'') [] None content1;
         content3 = re_sub (marker_line ''</think>'') [] None content2;
         content4 = re_sub think_region [] None content3;
         content5 = py_replace ''</think>'' [] (py_replace ''<think>'' [] content4);
         content6 = re_sub newline_run [CHR 0x0A, CHR 0x0A] None content5
     in content6)"

text \<open>Python's \<open>sub in s\<close>.\<close>

definition contains :: "string \<Rightarrow> string \<Rightarrow> bool" where
  "contains sub s = (find_sub sub s \<noteq> None)"

definition nl :: string where
  "nl = [CHR 0x0A]"

section \<open>The resumable transcription pipeline (continue\_transcription.py)\<close>

subsection \<open>Data\<close>

text \<open>A segment dictionary: \<open>path\<close>, \<open>start_ms\<close>, \<open>end_ms\<close>, \<open>duration_ms\<close>.\<close>

record segment =
  path :: string
  start_ms :: int
  end_ms :: int
  duration_ms :: int

text \<open>
  What the speech-to-text capability returns for one segment: a dictionary that may
  hold \<open>"chunks"\<close> (each with \<open>"text"\<close> and a \<open>"timestamp"\<close> pair whose components may
  be \<open>None\<close>) and may hold \<open>"text"\<close>.
\<close>

record raw_chunk =
  raw_text :: string
  timestamp :: "real option \<times> real option"

record asr_result =
  result_chunks :: "raw_chunk list option"
  result_text :: "string option"

text \<open>The capability, called on a segment's path: it raises or returns a result.\<close>

type_synonym whisper = "string \<Rightarrow> py_exn + asr_result"

text \<open>An entry of \<open>full_transcript\<close>: \<open>text\<close>, \<open>start_time\<close>, \<open>end_time\<close>.\<close>

record chunk =
  chunk_text :: string
  start_time :: real
  end_time :: "real option"

text \<open>The dictionary written to \<open>{video_name}_transcript.json\<close>.\<close>

record transcript =
  video_name :: string
  video_path :: string
  duration_seconds :: real
  chunks :: "chunk list"
  transcript_text :: string

text \<open>An entry of the log's \<open>results\<close>: status success or status error.\<close>

datatype item_result =
    Success string string nat
  | Failure string py_exn

text \<open>The log (its \<open>timestamp\<close>, the wall-clock time, is left out).\<close>

record run_log =
  total_files :: nat
  success_count :: nat
  results :: "item_result list"

text \<open>What \<open>continue_transcription\<close> returns, or the exception that leaves it.\<close>

datatype outcome =
    ErrorResult string
  | Message string
  | LogData run_log
  | Uncaught py_exn

text \<open>
  Everything the function reads from outside: the names of the files that
  \<open>AUDIO_DIR.glob("*.wav")\<close> and \<open>TRANSCRIPTS_DIR.glob("*_transcript.json")\<close> yield, in
  the order they are yielded; which paths exist; what a well-formed pattern matches in
  the video directory; the listing of a segment directory; the length in ms of an
  audio file (\<open>None\<close> when \<open>AudioSegment.from_file\<close> raises); which exports fail; which
  directory creations and file writes fail; and what \<open>load_whisper_model\<close> returns.
\<close>

record env =
  audio_glob :: "string list"
  transcript_glob :: "string list"
  path_exists :: "string \<Rightarrow> bool"
  video_glob :: "string \<Rightarrow> string list"
  segment_glob :: "string \<Rightarrow> string list"
  from_file :: "string \<Rightarrow> nat option"
  export_fails :: "string \<Rightarrow> bool"
  io_fails :: "string \<Rightarrow> bool"
  load_whisper_model :: "whisper option"

text \<open>The outcome of the segmentation step of one recording.\<close>

datatype 'a step = Skip | Raise py_exn | Done 'a

subsection \<open>Directories\<close>

definition VIDEO_DIR :: string where
  "VIDEO_DIR = ''data/raw/videos''"

definition AUDIO_DIR :: string where
  "AUDIO_DIR = ''data/processed/audio''"

definition TRANSCRIPTS_DIR :: string where
  "TRANSCRIPTS_DIR = ''data/processed/transcripts''"

definition PROCESSED_DIR :: string where
  "PROCESSED_DIR = ''data/processed''"

text \<open>The path of an audio file of the listing, from its file name.\<close>

definition audio_path_of :: "string \<Rightarrow> string" where
  "audio_path_of audio = AUDIO_DIR @ ''/'' @ audio"

subsection \<open>Resume Controller (lines 73--84)\<close>

definition untranscribed_files :: "env \<Rightarrow> string list" where
  "untranscribed_files e =
     (let existing_transcripts =
            map (\<lambda>p. py_replace ''_transcript'' [] (py_stem p)) (transcript_glob e)
      in filter (\<lambda>audio. py_stem audio \<notin> set existing_transcripts) (audio_glob e))"

subsection \<open>The reference video (lines 96--116)\<close>

definition possible_video_extensions :: "string list" where
  "possible_video_extensions = [''.mp4'', ''.mkv'', ''.avi'']"

text \<open>
  \<open>VIDEO_DIR.glob(pattern)\<close> for a pattern of one path component that is not \<open>**\<close>
  itself: a pattern that holds \<open>**\<close> raises \<open>ValueError\<close> (pathlib before Python 3.13);
  any other pattern yields what the environment has for it.
\<close>

definition path_glob :: "env \<Rightarrow> string \<Rightarrow> py_exn + string list" where
  "path_glob e pattern =
     (if contains ''**'' pattern then Inl (ValueError pattern) else Inr (video_glob e pattern))"

text \<open>The loop of lines 108--112: the first match of the first extension that has one.\<close>

fun glob_videos :: "env \<Rightarrow> string \<Rightarrow> string list \<Rightarrow> py_exn + string option" where
  "glob_videos e name [] = Inr None"
| "glob_videos e name (ext # exts) =
     (case path_glob e (''*'' @ name @ ''*'' @ ext) of
        Inl ex \<Rightarrow> Inl ex
      | Inr matching_files \<Rightarrow>
          if matching_files \<noteq> [] then Inr (Some (hd matching_files))
          else glob_videos e name exts)"

text \<open>
  The reference video, or the exception of the \<open>glob\<close> of line 109.  These lines stand
  before the \<open>try\<close> of line 118: the exception leaves the function.
\<close>

definition find_video :: "env \<Rightarrow> string \<Rightarrow> string \<Rightarrow> py_exn + string" where
  "find_video e name audio_path =
     (case List.find (\<lambda>ext. path_exists e (VIDEO_DIR @ ''/'' @ name @ ext))
             possible_video_extensions of
        Some ext \<Rightarrow> Inr (VIDEO_DIR @ ''/'' @ name @ ext)
      | None \<Rightarrow>
          (case glob_videos e name possible_video_extensions of
             Inl ex \<Rightarrow> Inl ex
           | Inr (Some p) \<Rightarrow> Inr p
           | Inr None \<Rightarrow> Inr audio_path))"

subsection \<open>Segmenter (lines 119--188)\<close>

definition segment_length_ms :: int where
  "segment_length_ms = 30000"

definition segment_dir_of :: "string \<Rightarrow> string" where
  "segment_dir_of name = os_path_join AUDIO_DIR (name @ ''_segments'')"

definition segment_path_of :: "string \<Rightarrow> nat \<Rightarrow> string" where
  "segment_path_of name i =
     os_path_join (segment_dir_of name) (name @ ''_segment_'' @ fmt03 i @ ''.wav'')"

text \<open>The sort key \<open>int(str(x).split('_')[-1].split('.')[0])\<close>.\<close>

definition seg_key :: "string \<Rightarrow> py_exn + int" where
  "seg_key x = py_int (hd (py_split CHR ''.'' (last (py_split CHR ''_'' x))))"

text \<open>
  \<open>sorted(existing_segments, key=...)\<close>: the keys are computed first (the first one
  that raises ends the sort), then the paths are sorted by key, stably.
\<close>

definition sorted_by_key :: "string list \<Rightarrow> py_exn + string list" where
  "sorted_by_key xs =
     (case collect (map seg_key xs) of
        Inl ex \<Rightarrow> Inl ex
      | Inr ks \<Rightarrow> Inr (map snd (sort_key fst (zip ks xs))))"

text \<open>Reuse of existing segments (lines 132--152).\<close>

definition reuse_segment :: "env \<Rightarrow> nat \<times> string \<Rightarrow> segment" where
  "reuse_segment e = (\<lambda>(i, segment_path).
     let start = int i * segment_length_ms;
         dur = (case from_file e segment_path of Some n \<Rightarrow> int n | None \<Rightarrow> segment_length_ms)
     in \<lparr>path = segment_path, start_ms = start, end_ms = start + dur, duration_ms = dur\<rparr>)"

definition reuse_segments :: "env \<Rightarrow> string list \<Rightarrow> segment list" where
  "reuse_segments e sorted_segments = map (reuse_segment e) (enumerate 0 sorted_segments)"

text \<open>The dictionary built for index \<open>i\<close> (lines 170--182).\<close>

definition fresh_segment :: "string \<Rightarrow> int \<Rightarrow> nat \<Rightarrow> segment" where
  "fresh_segment name audio_length_ms i =
     (let start = int i * segment_length_ms;
          end = min ((int i + 1) * segment_length_ms) audio_length_ms
      in \<lparr>path = segment_path_of name i, start_ms = start, end_ms = end,
          duration_ms = end - start\<rparr>)"

text \<open>
  The loop that splits and exports (lines 169--182); an export that raises ends it
  with the exception.
\<close>

fun export_loop :: "env \<Rightarrow> string \<Rightarrow> int \<Rightarrow> nat list \<Rightarrow> segment list \<Rightarrow> py_exn + segment list" where
  "export_loop e name audio_length_ms [] segments = Inr segments"
| "export_loop e name audio_length_ms (i # rest) segments =
     (let seg = fresh_segment name audio_length_ms i
      in if export_fails e (path seg) then Inl (IOError (path seg))
         else export_loop e name audio_length_ms rest (segments @ [seg]))"

definition num_segments :: "int \<Rightarrow> int" where
  "num_segments audio_length_ms =
     audio_length_ms div segment_length_ms
       + (if audio_length_ms mod segment_length_ms > 0 then 1 else 0)"

text \<open>
  The segmentation step: \<open>Raise\<close> is an exception that reaches the handler of the
  recording (line 255), \<open>Skip\<close> is the \<open>continue\<close> of line 188.
\<close>

definition segmenter :: "env \<Rightarrow> string \<Rightarrow> string \<Rightarrow> segment list step" where
  "segmenter e name audio_path =
     (let segment_dir = segment_dir_of name in
      if io_fails e segment_dir then Raise (IOError segment_dir)
      else
        let existing_segments = segment_glob e segment_dir in
        if existing_segments \<noteq> [] then
          (case sorted_by_key existing_segments of
             Inl ex \<Rightarrow> Raise ex
           | Inr sorted_segments \<Rightarrow> Done (reuse_segments e sorted_segments))
        else
          (case from_file e audio_path of
             None \<Rightarrow> Skip
           | Some n \<Rightarrow>
               (case export_loop e name (int n) [0..<nat (num_segments (int n))] [] of
                  Inl ex \<Rightarrow> Skip
                | Inr segments \<Rightarrow> Done segments)))"

subsection \<open>Transcriber (lines 193--229)\<close>

definition offset_chunk :: "real \<Rightarrow> raw_chunk \<Rightarrow> chunk" where
  "offset_chunk segment_start_sec c =
     \<lparr>chunk_text = raw_text c,
      start_time = (case fst (timestamp c) of
                      Some t \<Rightarrow> segment_start_sec + t
                    | None \<Rightarrow> segment_start_sec),
      end_time = (case snd (timestamp c) of
                    Some t \<Rightarrow> Some (segment_start_sec + t)
                  | None \<Rightarrow> None)\<rparr>"

text \<open>
  One pass of the loop body: the entries appended to \<open>full_transcript\<close>.  An exception
  of the call, or a result with neither \<open>"chunks"\<close> nor \<open>"text"\<close>, is caught at line 227.
\<close>

definition transcribe_segment :: "whisper \<Rightarrow> chunk list \<Rightarrow> segment \<Rightarrow> chunk list" where
  "transcribe_segment whisper_model full_transcript seg =
     (case whisper_model (path seg) of
        Inl ex \<Rightarrow> full_transcript
      | Inr result \<Rightarrow>
          (let segment_start_sec = real_of_int (start_ms seg) / 1000 in
           case result_chunks result of
             Some cs \<Rightarrow>
               foldl (\<lambda>acc c. acc @ [offset_chunk segment_start_sec c]) full_transcript cs
           | None \<Rightarrow>
               (case result_text result of
                  None \<Rightarrow> full_transcript
                | Some t \<Rightarrow>
                    full_transcript @
                      [\<lparr>chunk_text = t, start_time = segment_start_sec,
                        end_time = Some (segment_start_sec
                                          + real_of_int (duration_ms seg) / 1000)\<rparr>])))"

definition transcribe_segments :: "whisper \<Rightarrow> segment list \<Rightarrow> chunk list" where
  "transcribe_segments whisper_model segments =
     foldl (transcribe_segment whisper_model) [] segments"

text \<open>
  The local start of a chunk as line 211 reads it: a start that is \<open>None\<close> adds nothing
  to the start of the segment.
\<close>

definition local_start :: "raw_chunk \<Rightarrow> real" where
  "local_start c = (case fst (timestamp c) of Some t \<Rightarrow> t | None \<Rightarrow> 0)"

text \<open>
  What claim C9 assumes of the chunks of a result: local starts that are non-negative
  and non-decreasing.  And what it needs besides: local starts that do not exceed the
  window of 30 seconds.
\<close>

definition timestamps_ok :: "raw_chunk list \<Rightarrow> bool" where
  "timestamps_ok cs = (sorted (map local_start cs) \<and> list_all (\<lambda>c. 0 \<le> local_start c) cs)"

definition within_window :: "raw_chunk list \<Rightarrow> bool" where
  "within_window cs = list_all (\<lambda>c. local_start c \<le> 30) cs"

text \<open>
  The same for the results of all the segments of a recording: wherever the call returns
  a result that holds chunks.
\<close>

definition results_ok :: "whisper \<Rightarrow> segment list \<Rightarrow> bool" where
  "results_ok w segs =
     list_all (\<lambda>s. case w (path s) of
                      Inl ex \<Rightarrow> True
                    | Inr r \<Rightarrow> (case result_chunks r of
                                  None \<Rightarrow> True
                                | Some cs \<Rightarrow> timestamps_ok cs)) segs"

definition results_within :: "whisper \<Rightarrow> segment list \<Rightarrow> bool" where
  "results_within w segs =
     list_all (\<lambda>s. case w (path s) of
                      Inl ex \<Rightarrow> True
                    | Inr r \<Rightarrow> (case result_chunks r of
                                  None \<Rightarrow> True
                                | Some cs \<Rightarrow> within_window cs)) segs"

subsection \<open>Stitcher (lines 232--253)\<close>

definition transcript_path_of :: "string \<Rightarrow> string" where
  "transcript_path_of name = os_path_join TRANSCRIPTS_DIR (name @ ''_transcript.json'')"

definition stitch :: "string \<Rightarrow> string \<Rightarrow> segment list \<Rightarrow> chunk list \<Rightarrow> transcript" where
  "stitch name vpath segments full_transcript =
     \<lparr>video_name = name,
      video_path = vpath,
      duration_seconds =
        (if segments \<noteq> [] then real_of_int (end_ms (last segments)) / 1000 else 0),
      chunks = full_transcript,
      transcript_text = py_join '' '' (map chunk_text full_transcript)\<rparr>"

subsection \<open>One recording (the body of the loop of line 92)\<close>

text \<open>
  For the audio file \<open>audio\<close> of the work list: the exception that leaves the function,
  or the log entry of the recording, if any, and the transcript artifact written, if
  any, with its path.
\<close>

definition process_recording ::
  "env \<Rightarrow> whisper \<Rightarrow> string
     \<Rightarrow> py_exn + (item_result option \<times> (string \<times> transcript) option)" where
  "process_recording e whisper_model audio =
     (let audio_path = audio_path_of audio;
          name = py_stem audio
      in case find_video e name audio_path of
           Inl ex \<Rightarrow> Inl ex
         | Inr vpath \<Rightarrow>
             Inr (case segmenter e name audio_path of
                    Skip \<Rightarrow> (None, None)
                  | Raise ex \<Rightarrow> (Some (Failure audio_path ex), None)
                  | Done segments \<Rightarrow>
                      (let full_transcript = transcribe_segments whisper_model segments;
                           transcript_path = transcript_path_of name;
                           transcript_result = stitch name vpath segments full_transcript
                       in if io_fails e TRANSCRIPTS_DIR
                          then (Some (Failure audio_path (IOError TRANSCRIPTS_DIR)), None)
                          else if io_fails e transcript_path
                          then (Some (Failure audio_path (IOError transcript_path)), None)
                          else (Some (Success audio_path transcript_path
                                        (length (py_split_ws
                                                   (transcript_text transcript_result)))),
                                Some (transcript_path, transcript_result)))))"

subsection \<open>The run (lines 53--278)\<close>

text \<open>The state of the loop: \<open>results\<close>, \<open>success_count\<close> and the artifacts written.\<close>

type_synonym run_state = "item_result list \<times> nat \<times> (string \<times> transcript) list"

definition run_step ::
  "run_state \<Rightarrow> item_result option \<times> (string \<times> transcript) option \<Rightarrow> run_state" where
  "run_step = (\<lambda>(res, cnt, written) (entry, artifact).
     case entry of
       None \<Rightarrow> (res, cnt, written)
     | Some (Failure a ex) \<Rightarrow> (res @ [Failure a ex], cnt, written)
     | Some (Success a t n) \<Rightarrow>
         (res @ [Success a t n], cnt + 1,
          (case artifact of None \<Rightarrow> written | Some art \<Rightarrow> written @ [art])))"

text \<open>
  The loop over the work list: it ends with the state, and with the exception that
  left it, if any.
\<close>

fun run_loop :: "env \<Rightarrow> whisper \<Rightarrow> string list \<Rightarrow> run_state \<Rightarrow> py_exn option \<times> run_state" where
  "run_loop e whisper_model [] st = (None, st)"
| "run_loop e whisper_model (audio # rest) st =
     (case process_recording e whisper_model audio of
        Inl ex \<Rightarrow> (Some ex, st)
      | Inr r \<Rightarrow> run_loop e whisper_model rest (run_step st r))"

definition log_path :: string where
  "log_path = PROCESSED_DIR @ ''/continued_transcription_log.json''"

definition continue_transcription ::
  "env \<Rightarrow> whisper option \<Rightarrow> outcome \<times> (string \<times> transcript) list" where
  "continue_transcription e whisper_model =
     (case (case whisper_model of None \<Rightarrow> load_whisper_model e | Some w \<Rightarrow> Some w) of
        None \<Rightarrow> (ErrorResult ''Failed to load Whisper model'', [])
      | Some w \<Rightarrow>
          (let todo = untranscribed_files e;
               total = length todo
           in if total = 0 then (Message ''All files already transcribed'', [])
              else
                (case run_loop e w todo ([], 0, []) of
                   (Some ex, res, cnt, written) \<Rightarrow> (Uncaught ex, written)
                 | (None, res, cnt, written) \<Rightarrow>
                     if io_fails e log_path then (Uncaught (IOError log_path), written)
                     else (LogData \<lparr>total_files = total, success_count = cnt,
                                     results = res\<rparr>, written))))"

section \<open>Concrete inputs\<close>

text \<open>An empty world: no files, nothing fails, no model to load.\<close>

definition env0 :: env where
  "env0 = \<lparr>audio_glob = [], transcript_glob = [], path_exists = (\<lambda>_. False),
            video_glob = (\<lambda>_. []), segment_glob = (\<lambda>_. []), from_file = (\<lambda>_. None),
            export_fails = (\<lambda>_. False), io_fails = (\<lambda>_. False),
            load_whisper_model = None\<rparr>"

text \<open>A capability whose every call raises.\<close>

definition failing_model :: whisper where
  "failing_model = (\<lambda>_. Inl (ModelError ''out of memory''))"

text \<open>
  Two recordings: the audio file of \<open>lec0\<close> cannot be read, \<open>lec1\<close> lasts 65000 ms.
\<close>

definition env_unreadable :: env where
  "env_unreadable =
     env0\<lparr>audio_glob := [''lec0.wav'', ''lec1.wav''],
          from_file := (\<lambda>p. if p = audio_path_of ''lec1.wav'' then Some 65000 else None)\<rparr>"

text \<open>
  One recording \<open>lec1\<close> whose segment directory holds a file with no number in its
  name.
\<close>

definition env_foreign_segment :: env where
  "env_foreign_segment =
     env0\<lparr>audio_glob := [''lec1.wav''],
          segment_glob := (\<lambda>_. [''data/processed/audio/lec1_segments/notes.wav''])\<rparr>"

text \<open>
  A recording whose name holds \<open>_transcript\<close>, with the transcript a former run wrote
  for it.
\<close>

definition env_named_transcript :: env where
  "env_named_transcript =
     env0\<lparr>audio_glob := [''intro_transcript_demo.wav''],
          transcript_glob := [''intro_transcript_demo_transcript.json'']\<rparr>"

definition env_abc :: env where
  "env_abc =
     env0\<lparr>audio_glob := [''A.wav'', ''B.wav'', ''C.wav''],
          transcript_glob := [''A_transcript.json'']\<rparr>"

text \<open>The recording \<open>lec1\<close> of 65000 ms, not segmented yet.\<close>

definition env_lec65 :: env where
  "env_lec65 =
     env0\<lparr>audio_glob := [''lec1.wav''],
          from_file := (\<lambda>p. if p = audio_path_of ''lec1.wav'' then Some 65000 else None)\<rparr>"

text \<open>Its three segments.\<close>

definition lec65_segs :: "segment list" where
  "lec65_segs =
     [\<lparr>path = ''data/processed/audio/lec1_segments/lec1_segment_000.wav'',
       start_ms = 0, end_ms = 30000, duration_ms = 30000\<rparr>,
      \<lparr>path = ''data/processed/audio/lec1_segments/lec1_segment_001.wav'',
       start_ms = 30000, end_ms = 60000, duration_ms = 30000\<rparr>,
      \<lparr>path = ''data/processed/audio/lec1_segments/lec1_segment_002.wav'',
       start_ms = 60000, end_ms = 65000, duration_ms = 5000\<rparr>]"

text \<open>
  A capability that returns two chunks for segment 0, raises on segment 1 and returns
  one chunk with no end timestamp for every other path.
\<close>

definition hello_chunks :: "raw_chunk list" where
  "hello_chunks =
     [\<lparr>raw_text = ''Hello'', timestamp = (Some 0, Some 2)\<rparr>,
      \<lparr>raw_text = ''world'', timestamp = (Some 2, Some 4)\<rparr>]"

definition bye_chunks :: "raw_chunk list" where
  "bye_chunks = [\<lparr>raw_text = ''bye'', timestamp = (Some 1, None)\<rparr>]"

definition model_lec65 :: whisper where
  "model_lec65 p =
     (if p = ''data/processed/audio/lec1_segments/lec1_segment_000.wav''
      then Inr \<lparr>result_chunks = Some hello_chunks, result_text = Some ''Hello world''\<rparr>
      else if p = ''data/processed/audio/lec1_segments/lec1_segment_001.wav''
      then Inl (ModelError ''out of memory'')
      else Inr \<lparr>result_chunks = Some bye_chunks, result_text = Some ''bye''\<rparr>)"

text \<open>A capability that returns the same two chunks, at 0 and 2 seconds, for every segment.\<close>

definition model_steady :: whisper where
  "model_steady p = Inr \<lparr>result_chunks = Some hello_chunks, result_text = Some ''Hello world''\<rparr>"

text \<open>
  A capability whose chunk for segment 0 starts 31 seconds into the segment; the
  chunk of every other segment starts at its beginning.
\<close>

definition model_late :: whisper where
  "model_late p =
     (if p = ''data/processed/audio/lec1_segments/lec1_segment_000.wav''
      then Inr \<lparr>result_chunks = Some [\<lparr>raw_text = ''late'', timestamp = (Some 31, Some 32)\<rparr>],
                result_text = Some ''late''\<rparr>
      else Inr \<lparr>result_chunks = Some [\<lparr>raw_text = ''next'', timestamp = (Some 0, Some 1)\<rparr>],
                result_text = Some ''next''\<rparr>)"

text \<open>
  The second run on \<open>lec1\<close>: the segment directory lists the three artifacts of the
  first run, in some order.  In \<open>env_lec65_again\<close> the first and the last artifact can be
  probed and the second cannot; in \<open>env_lec65_unprobed\<close> none can.
\<close>

definition lec65_listing :: "string list" where
  "lec65_listing =
     [''data/processed/audio/lec1_segments/lec1_segment_002.wav'',
      ''data/processed/audio/lec1_segments/lec1_segment_000.wav'',
      ''data/processed/audio/lec1_segments/lec1_segment_001.wav'']"

definition env_lec65_again :: env where
  "env_lec65_again =
     env0\<lparr>audio_glob := [''lec1.wav''],
          segment_glob := (\<lambda>_. lec65_listing),
          from_file := (\<lambda>p.
            if p = ''data/processed/audio/lec1_segments/lec1_segment_000.wav'' then Some 30000
            else if p = ''data/processed/audio/lec1_segments/lec1_segment_002.wav'' then Some 5000
            else None)\<rparr>"

definition env_lec65_unprobed :: env where
  "env_lec65_unprobed =
     env0\<lparr>audio_glob := [''lec1.wav''], segment_glob := (\<lambda>_. lec65_listing)\<rparr>"

text \<open>The segments of the second run when no artifact can be probed.\<close>

definition lec65_segs_unprobed :: "segment list" where
  "lec65_segs_unprobed =
     [\<lparr>path = ''data/processed/audio/lec1_segments/lec1_segment_000.wav'',
       start_ms = 0, end_ms = 30000, duration_ms = 30000\<rparr>,
      \<lparr>path = ''data/processed/audio/lec1_segments/lec1_segment_001.wav'',
       start_ms = 30000, end_ms = 60000, duration_ms = 30000\<rparr>,
      \<lparr>path = ''data/processed/audio/lec1_segments/lec1_segment_002.wav'',
       start_ms = 60000, end_ms = 90000, duration_ms = 30000\<rparr>]"

text \<open>A recording whose name holds \<open>**\<close>, and an audio file named \<open>.wav\<close>.\<close>

definition env_star :: env where
  "env_star = env0\<lparr>audio_glob := [''a**b.wav'']\<rparr>"

definition env_dot_wav :: env where
  "env_dot_wav = env0\<lparr>audio_glob := [''.wav'']\<rparr>"

text \<open>The input of the specification's cleanup example, and the output it expects.\<close>

definition think_example :: string where
  "think_example =
     ''# <think>'' @ nl @ ''secret'' @ nl @ ''</think>'' @ nl @ ''Visible text''
       @ nl @ nl @ nl @ nl @ ''More text''"

definition think_expected :: string where
  "think_expected = nl @ ''Visible text'' @ nl @ nl @ ''More text''"

section \<open>Decimal formatting, parsing and the sort key\<close>

lemma digit_cases: "d < 10 \<Longrightarrow> d \<in> {0,1,2,3,4,5,6,7,8,9::nat}"
  by auto

lemma digit_of_props:
  assumes "d < 10"
  shows "is_digit (digit_of d)" "digit_val (digit_of d) = d" "\<not> is_space (digit_of d)"
    "digit_of d \<noteq> CHR ''_''" "digit_of d \<noteq> CHR ''.''" "digit_of d \<noteq> CHR ''-''" "digit_of d \<noteq> CHR ''+''"
  using digit_cases[OF assms]
  by (auto simp: is_digit_def digit_val_def digit_of_def is_space_def)

lemma str_of_nat_digits: "list_all is_digit (str_of_nat n)"
proof (induction n rule: str_of_nat.induct)
  case (1 n)
  then show ?case
    by (subst str_of_nat.simps) (simp add: digit_of_props)
qed

lemma str_of_nat_not_Nil: "str_of_nat n \<noteq> []"
  by (subst str_of_nat.simps) simp

lemma digits_val_snoc: "digits_val (ds @ [c]) = 10 * digits_val ds + digit_val c"
  by (simp add: digits_val_def)

lemma digits_val_str_of_nat: "digits_val (str_of_nat n) = n"
proof (induction n rule: str_of_nat.induct)
  case (1 n)
  show ?case
  proof (cases "n < 10")
    case True
    then show ?thesis by (subst str_of_nat.simps) (simp add: digits_val_def digit_of_props)
  next
    case False
    with 1 have "digits_val (str_of_nat (n div 10)) = n div 10" by simp
    with False show ?thesis
      by (subst str_of_nat.simps) (simp add: digits_val_snoc digit_of_props)
  qed
qed

lemma digits_val_zeros: "digits_val (replicate k CHR ''0'' @ ds) = digits_val ds"
proof -
  have "foldl (\<lambda>a c. 10 * a + digit_val c) 0 (replicate k CHR ''0'') = 0"
    by (induction k) (simp_all add: digit_val_def)
  then show ?thesis by (simp add: digits_val_def)
qed


lemma fmt03_digits: "list_all is_digit (fmt03 i)"
proof -
  have "is_digit CHR ''0''" by (simp add: is_digit_def)
  then have "list_all is_digit (replicate k CHR ''0'')" for k
    by (simp add: list_all_iff)
  then show ?thesis
    by (simp add: fmt03_def Let_def str_of_nat_digits)
qed

lemma fmt03_not_Nil: "fmt03 i \<noteq> []"
  by (simp add: fmt03_def Let_def str_of_nat_not_Nil)

lemma digits_val_fmt03: "digits_val (fmt03 i) = i"
  by (simp add: fmt03_def Let_def digits_val_zeros digits_val_str_of_nat)

lemma is_digit_facts:
  assumes "is_digit c"
  shows "\<not> is_space c" "c \<noteq> CHR ''_''" "c \<noteq> CHR ''.''" "c \<noteq> CHR ''-''" "c \<noteq> CHR ''+''"
  using assms by (auto simp: is_digit_def is_space_def)

lemma py_strip_digits:
  assumes "list_all is_digit ds"
  shows "py_strip ds = ds"
proof (cases "ds = []")
  case True
  then show ?thesis by (simp add: py_strip_def)
next
  case False
  from False assms have h: "\<not> is_space (hd ds)"
    by (cases ds) (auto simp: is_digit_facts)
  from False assms have l: "\<not> is_space (last ds)"
    by (auto simp: list_all_iff is_digit_facts)
  from False h have a: "dropWhile is_space ds = ds"
    by (cases ds) auto
  from False l have b: "dropWhile is_space (rev ds) = rev ds"
    by (cases "rev ds") (auto simp: last_rev[symmetric] hd_rev)
  show ?thesis by (simp add: py_strip_def a b)
qed

lemma py_int_digits:
  assumes "list_all is_digit ds" "ds \<noteq> []"
  shows "py_int ds = Inr (int (digits_val ds))"
proof -
  from assms have "is_digit (hd ds)" by (cases ds) auto
  then have "hd ds \<noteq> CHR ''-''" "hd ds \<noteq> CHR ''+''" by (auto simp: is_digit_facts)
  with assms show ?thesis
    by (simp add: py_int_def py_strip_digits Let_def)
qed

lemma py_int_fmt03: "py_int (fmt03 i) = Inr (int i)"
  by (simp add: py_int_digits fmt03_digits fmt03_not_Nil digits_val_fmt03)

lemma py_split_not_Nil: "py_split sep s \<noteq> []"
  by (induction s) (auto split: list.splits)

lemma py_split_no_sep: "sep \<notin> set s \<Longrightarrow> py_split sep s = [s]"
  by (induction s) auto

lemma py_split_append: "py_split sep (a @ sep # b) = py_split sep a @ py_split sep b"
  by (induction a) (auto split: list.splits simp: py_split_not_Nil)

lemma last_py_split: "sep \<notin> set b \<Longrightarrow> last (py_split sep (a @ sep # b)) = b"
  by (simp add: py_split_append py_split_no_sep)

lemma hd_py_split: "sep \<notin> set a \<Longrightarrow> hd (py_split sep (a @ sep # b)) = a"
  by (simp add: py_split_append py_split_no_sep)

lemma segment_path_shape:
  "\<exists>a. segment_path_of name i = a @ CHR ''_'' # (fmt03 i @ ''.wav'')"
proof -
  have "name @ ''_segment_'' @ fmt03 i @ ''.wav'' = (name @ ''_segment'') @ CHR ''_'' # (fmt03 i @ ''.wav'')"
    by simp
  then show ?thesis
    unfolding segment_path_of_def os_path_join_def
    by (metis append.assoc append_Nil)
qed

lemma seg_key_segment_path: "seg_key (segment_path_of name i) = Inr (int i)"
proof -
  obtain a where a: "segment_path_of name i = a @ CHR ''_'' # (fmt03 i @ ''.wav'')"
    using segment_path_shape by blast
  have nd: "CHR ''_'' \<notin> set (fmt03 i)" "CHR ''.'' \<notin> set (fmt03 i)"
    using fmt03_digits[of i] is_digit_facts(2,3) by (auto simp: list_all_iff)
  from nd have "last (py_split CHR ''_'' (segment_path_of name i)) = fmt03 i @ CHR ''.'' # ''wav''"
    unfolding a by (subst last_py_split) auto
  moreover have "hd (py_split CHR ''.'' (fmt03 i @ CHR ''.'' # ''wav'')) = fmt03 i"
    using nd by (rule_tac hd_py_split) simp
  ultimately show ?thesis
    by (simp add: seg_key_def py_int_fmt03)
qed

section \<open>Sorting the listing of a segment directory\<close>

lemma collect_all_Inr:
  "collect (map (\<lambda>x. Inr (g x)) xs) = Inr (map g xs)"
  by (induction xs) auto

lemma insort_key_decorate:
  "insort_key fst (g x, x) (map (\<lambda>y. (g y, y)) ys) = map (\<lambda>y. (g y, y)) (insort_key g x ys)"
  by (induction ys) auto

lemma sort_key_decorate:
  "sort_key fst (map (\<lambda>y. (g y, y)) xs) = map (\<lambda>y. (g y, y)) (sort_key g xs)"
  by (induction xs) (auto simp: insort_key_decorate)

lemma zip_decorate: "zip (map g xs) xs = map (\<lambda>y. (g y, y)) xs"
  by (induction xs) auto

lemma sorted_by_key_permutation:
  assumes "mset listing = mset (map (segment_path_of name) [0..<n])"
  shows "sorted_by_key listing = Inr (map (segment_path_of name) [0..<n])"
proof -
  define g where "g = (\<lambda>x. projr (seg_key x))"
  have key: "g (segment_path_of name i) = int i" for i
    by (simp add: g_def seg_key_segment_path)
  have mem: "set listing = segment_path_of name ` {0..<n}"
    using mset_eq_setD[OF assms] by simp
  have "seg_key x = Inr (g x)" if "x \<in> set listing" for x
    using that mem by (auto simp: g_def seg_key_segment_path)
  then have "map seg_key listing = map (\<lambda>x. Inr (g x)) listing"
    by (intro map_ext) blast
  then have c: "collect (map seg_key listing) = Inr (map g listing)"
    by (simp only: collect_all_Inr)
  have inj: "inj_on g (set listing)"
    unfolding mem by (auto simp: inj_on_def key)
  have keys: "map g (map (segment_path_of name) [0..<n]) = map int [0..<n]"
    by (simp add: key)
  have "sorted (map int [0..<n])"
    by (simp add: sorted_map sorted_wrt_iff_nth_less)
  then have srt: "sorted (map g (map (segment_path_of name) [0..<n]))"
    by (simp only: keys)
  have "sort_key g listing = map (segment_path_of name) [0..<n]"
    using assms inj srt by (rule sort_key_inj_key_eq)
  then show ?thesis
    by (simp add: sorted_by_key_def c zip_decorate sort_key_decorate comp_def)
qed

section \<open>The export loop and the number of segments\<close>

lemma export_loop_ok:
  assumes "\<forall>i. \<not> export_fails e (segment_path_of name i)"
  shows "export_loop e name D is acc = Inr (acc @ map (fresh_segment name D) is)"
  using assms
  by (induction "is" arbitrary: acc) (simp_all add: Let_def fresh_segment_def)

lemma export_loop_Inr:
  "export_loop e name D is acc = Inr segs \<Longrightarrow> segs = acc @ map (fresh_segment name D) is"
proof (induction "is" arbitrary: acc)
  case Nil
  then show ?case by simp
next
  case (Cons i rest)
  from Cons.prems have "export_loop e name D rest (acc @ [fresh_segment name D i]) = Inr segs"
    by (simp add: Let_def split: if_splits)
  from Cons.IH[OF this] show ?case by simp
qed

lemma num_segments_split:
  fixes a :: int
  assumes "0 \<le> a"
  obtains q r where "a = q * 30000 + r" "0 \<le> r" "r < 30000" "0 \<le> q"
    "num_segments a = q + (if r > 0 then 1 else 0)"
proof
  show "a = (a div 30000) * 30000 + a mod 30000" by simp
  show "0 \<le> a mod 30000" "a mod 30000 < 30000" by simp_all
  show "0 \<le> a div 30000" using assms by (simp add: pos_imp_zdiv_nonneg_iff)
  show "num_segments a = a div 30000 + (if a mod 30000 > 0 then 1 else 0)"
    by (simp add: num_segments_def segment_length_ms_def)
qed

lemma num_segments_ceiling: "num_segments (int D) = \<lceil>real D / 30000\<rceil>"
proof -
  have "\<lceil>real D / 30000\<rceil> = \<lceil>of_int (int D) / (of_int 30000 :: real)\<rceil>" by simp
  also have "\<dots> = - (- int D div 30000)" by (rule ceiling_divide_eq_div)
  also have "\<dots> = num_segments (int D)"
  proof -
    have "0 \<le> int D mod 30000" by simp
    then have "int D mod 30000 \<noteq> 0 \<Longrightarrow> 0 < int D mod 30000" by linarith
    then show ?thesis
      by (simp add: num_segments_def segment_length_ms_def zdiv_zminus1_eq_if)
  qed
  finally show ?thesis by simp
qed

lemma index_below_num_segments:
  assumes "i < nat (num_segments (int D))"
  shows "int i * 30000 < int D"
proof -
  obtain q r where qr: "int D = q * 30000 + r" "0 \<le> r" "r < 30000" "0 \<le> q"
    "num_segments (int D) = q + (if r > 0 then 1 else 0)"
    using num_segments_split[of "int D"] by (metis of_nat_0_le_iff)
  from assms qr show ?thesis
    by (auto split: if_splits)
qed

lemma inner_index_full:
  assumes "Suc i < nat (num_segments (int D))"
  shows "(int i + 1) * 30000 < int D"
  using index_below_num_segments[OF assms] by simp

lemma last_index_end:
  assumes "Suc i = nat (num_segments (int D))"
  shows "int D \<le> (int i + 1) * 30000"
proof -
  obtain q r where qr: "int D = q * 30000 + r" "0 \<le> r" "r < 30000" "0 \<le> q"
    "num_segments (int D) = q + (if r > 0 then 1 else 0)"
    using num_segments_split[of "int D"] by (metis of_nat_0_le_iff)
  from assms qr show ?thesis
    by (auto split: if_splits)
qed

lemma num_segments_zero: "nat (num_segments (int D)) = 0 \<longleftrightarrow> D = 0"
proof -
  obtain q r where qr: "int D = q * 30000 + r" "0 \<le> r" "r < 30000" "0 \<le> q"
    "num_segments (int D) = q + (if r > 0 then 1 else 0)"
    using num_segments_split[of "int D"] by (metis of_nat_0_le_iff)
  have a: "q + (if 0 < r then 1 else 0) \<le> 0 \<longleftrightarrow> q * 30000 + r = 0"
    using qr(2-4) by auto
  have b: "num_segments (int D) \<le> 0 \<longleftrightarrow> q + (if 0 < r then 1 else 0) \<le> 0"
    by (simp only: qr(5))
  have c: "int D = 0 \<longleftrightarrow> q * 30000 + r = 0"
    by (simp only: qr(1))
  from a b c have "num_segments (int D) \<le> 0 \<longleftrightarrow> int D = 0" by blast
  then show ?thesis by simp
qed

section \<open>Fresh segmentation: claim C1\<close>

lemma segmenter_fresh:
  assumes "\<not> io_fails e (segment_dir_of name)"
      and "segment_glob e (segment_dir_of name) = []"
      and "from_file e audio_path = Some D"
      and "\<forall>i. \<not> export_fails e (segment_path_of name i)"
  shows "segmenter e name audio_path
           = Done (map (fresh_segment name (int D)) [0..<nat (num_segments (int D))])"
  using assms by (simp add: segmenter_def export_loop_ok)

lemma fresh_segment_fields:
  "path (fresh_segment name a i) = segment_path_of name i"
  "start_ms (fresh_segment name a i) = int i * 30000"
  "end_ms (fresh_segment name a i) = min ((int i + 1) * 30000) a"
  "duration_ms (fresh_segment name a i) = min ((int i + 1) * 30000) a - int i * 30000"
  by (simp_all add: fresh_segment_def segment_length_ms_def Let_def)

text \<open>
  Claim C1: a recording of \<open>D\<close> ms that has no segment artifacts yet, can be read and
  whose exports succeed is split into \<open>ceil(D / 30000)\<close> segments; segment \<open>i\<close> starts at
  \<open>i * 30000\<close> and ends at \<open>min((i + 1) * 30000, D)\<close>.  The segments tile \<open>[0, D)\<close>: the first
  starts at 0, each ends where the next starts, the last ends at \<open>D\<close>; every segment but
  the last lasts 30000 ms, and the last is not empty and not longer.
\<close>

theorem C1_fresh_segmentation_tiles:
  assumes "\<not> io_fails e (segment_dir_of name)"
      and "segment_glob e (segment_dir_of name) = []"
      and "from_file e audio_path = Some D"
      and "\<forall>i. \<not> export_fails e (segment_path_of name i)"
  shows "\<exists>segs. segmenter e name audio_path = Done segs
           \<and> int (length segs) = \<lceil>real D / 30000\<rceil>
           \<and> (\<forall>i<length segs.
                  start_ms (segs ! i) = int i * 30000
                  \<and> end_ms (segs ! i) = min ((int i + 1) * 30000) (int D)
                  \<and> duration_ms (segs ! i) = end_ms (segs ! i) - start_ms (segs ! i)
                  \<and> 0 < duration_ms (segs ! i) \<and> duration_ms (segs ! i) \<le> 30000)
           \<and> (\<forall>i. Suc i < length segs \<longrightarrow>
                  end_ms (segs ! i) = start_ms (segs ! Suc i)
                  \<and> duration_ms (segs ! i) = 30000)
           \<and> (segs \<noteq> [] \<longrightarrow> start_ms (hd segs) = 0 \<and> end_ms (last segs) = int D)
           \<and> (segs = [] \<longleftrightarrow> D = 0)"
proof -
  define n where "n = nat (num_segments (int D))"
  define segs where "segs = map (fresh_segment name (int D)) [0..<n]"
  have run: "segmenter e name audio_path = Done segs"
    unfolding segs_def n_def using assms by (rule segmenter_fresh)
  have len: "length segs = n" by (simp add: segs_def)
  have nth: "segs ! i = fresh_segment name (int D) i" if "i < n" for i
    using that by (simp add: segs_def)
  have "0 \<le> num_segments (int D)"
    unfolding num_segments_ceiling by simp
  then have count: "int (length segs) = \<lceil>real D / 30000\<rceil>"
    by (simp add: len n_def num_segments_ceiling)
  have each: "start_ms (segs ! i) = int i * 30000
      \<and> end_ms (segs ! i) = min ((int i + 1) * 30000) (int D)
      \<and> duration_ms (segs ! i) = end_ms (segs ! i) - start_ms (segs ! i)
      \<and> 0 < duration_ms (segs ! i) \<and> duration_ms (segs ! i) \<le> 30000" if "i < n" for i
  proof -
    from that have "int i * 30000 < int D"
      unfolding n_def by (rule index_below_num_segments)
    then show ?thesis
      by (simp add: nth[OF that] fresh_segment_fields)
  qed
  have adj: "end_ms (segs ! i) = start_ms (segs ! Suc i) \<and> duration_ms (segs ! i) = 30000"
    if "Suc i < n" for i
  proof -
    from that have "(int i + 1) * 30000 < int D"
      unfolding n_def by (rule inner_index_full)
    moreover from that have "i < n" by simp
    ultimately show ?thesis
      by (simp add: nth that fresh_segment_fields)
  qed
  have ends: "start_ms (hd segs) = 0 \<and> end_ms (last segs) = int D" if "segs \<noteq> []"
  proof -
    from that have pos: "0 < n" by (simp add: segs_def)
    then obtain k where k: "n = Suc k" by (cases n) auto
    have "hd segs = segs ! 0" using that by (simp add: hd_conv_nth)
    then have first: "start_ms (hd segs) = 0"
      using pos by (simp add: nth fresh_segment_fields)
    have "last segs = segs ! k" using that by (simp add: last_conv_nth len k)
    moreover have "int D \<le> (int k + 1) * 30000"
      using k unfolding n_def by (intro last_index_end) simp
    ultimately have "end_ms (last segs) = int D"
      using k by (simp add: nth fresh_segment_fields)
    with first show ?thesis by simp
  qed
  have empty: "segs = [] \<longleftrightarrow> D = 0"
    using num_segments_zero[of D] by (simp add: segs_def n_def)
  from run count each adj ends empty show ?thesis
    unfolding len[symmetric] by blast
qed

theorem C1_fresh_segmentation_tiles_witness:
  "\<exists>segs. segmenter env_lec65 ''lec1'' (audio_path_of ''lec1.wav'') = Done segs
           \<and> int (length segs) = \<lceil>real 65000 / 30000\<rceil>
           \<and> (\<forall>i<length segs.
                  start_ms (segs ! i) = int i * 30000
                  \<and> end_ms (segs ! i) = min ((int i + 1) * 30000) (int 65000)
                  \<and> duration_ms (segs ! i) = end_ms (segs ! i) - start_ms (segs ! i)
                  \<and> 0 < duration_ms (segs ! i) \<and> duration_ms (segs ! i) \<le> 30000)
           \<and> (\<forall>i. Suc i < length segs \<longrightarrow>
                  end_ms (segs ! i) = start_ms (segs ! Suc i)
                  \<and> duration_ms (segs ! i) = 30000)
           \<and> (segs \<noteq> [] \<longrightarrow> start_ms (hd segs) = 0 \<and> end_ms (last segs) = int 65000)
           \<and> (segs = [] \<longleftrightarrow> (65000::nat) = 0)"
  by (rule C1_fresh_segmentation_tiles) (simp_all add: env_lec65_def env0_def)

text \<open>The example of the specification: 65000 ms give three segments, the last of 5000 ms.\<close>

lemma str_of_nat_small: "n < 10 \<Longrightarrow> str_of_nat n = [digit_of n]"
  by (subst str_of_nat.simps) simp

lemma lec65_segments_any:
  assumes "\<not> io_fails e (segment_dir_of ''lec1'')"
      and "segment_glob e (segment_dir_of ''lec1'') = []"
      and "from_file e (audio_path_of ''lec1.wav'') = Some 65000"
      and "\<forall>i. \<not> export_fails e (segment_path_of ''lec1'' i)"
  shows "segmenter e ''lec1'' (audio_path_of ''lec1.wav'') = Done lec65_segs"
proof -
  have n: "nat (num_segments (int 65000)) = 3"
    by (simp add: num_segments_def segment_length_ms_def)
  have upt: "[0..<3] = [0, 1, 2::nat]"
    by (simp add: upt_rec)
  have "segmenter e ''lec1'' (audio_path_of ''lec1.wav'')
          = Done (map (fresh_segment ''lec1'' (int 65000)) [0..<nat (num_segments (int 65000))])"
    using assms by (rule segmenter_fresh)
  also have "map (fresh_segment ''lec1'' (int 65000)) [0..<nat (num_segments (int 65000))]
               = lec65_segs"
    unfolding n upt
    by (simp add: fresh_segment_def segment_length_ms_def segment_path_of_def segment_dir_of_def
        os_path_join_def AUDIO_DIR_def fmt03_def str_of_nat_small digit_of_def lec65_segs_def
        numeral_2_eq_2)
  finally show ?thesis .
qed

lemma lec65_segments:
  "segmenter env_lec65 ''lec1'' (audio_path_of ''lec1.wav'') = Done lec65_segs"
  by (rule lec65_segments_any) (simp_all add: env_lec65_def env0_def)

section \<open>Transcriber: claim C5\<close>

lemma foldl_snoc_map: "foldl (\<lambda>acc c. acc @ [f c]) acc cs = acc @ map f cs"
  by (induction cs arbitrary: acc) auto

lemma transcribe_segment_append:
  "transcribe_segment w acc seg = acc @ transcribe_segment w [] seg"
  by (simp add: transcribe_segment_def foldl_snoc_map Let_def split: sum.splits option.splits)

lemma foldl_transcribe:
  "foldl (transcribe_segment w) acc segs = acc @ concat (map (transcribe_segment w []) segs)"
proof (induction segs arbitrary: acc)
  case Nil
  then show ?case by simp
next
  case (Cons s segs)
  show ?case
    by (simp add: Cons.IH) (subst transcribe_segment_append, simp)
qed

lemma transcribe_segments_concat:
  "transcribe_segments w segs = concat (map (transcribe_segment w []) segs)"
  by (simp add: transcribe_segments_def foldl_transcribe)

lemma transcribe_segment_chunks:
  assumes "w (path seg) = Inr result" "result_chunks result = Some cs"
  shows "transcribe_segment w acc seg
           = acc @ map (offset_chunk (real_of_int (start_ms seg) / 1000)) cs"
  using assms by (simp add: transcribe_segment_def foldl_snoc_map)

lemma transcribe_segment_raises:
  "w (path seg) = Inl ex \<Longrightarrow> transcribe_segment w acc seg = acc"
  by (simp add: transcribe_segment_def)

text \<open>
  Claim C5: when the result of a segment holds chunks, each chunk is appended with its
  text and with its local timestamps offset by the start of the segment in seconds,
  \<open>start_ms / 1000\<close>; a local end timestamp that is \<open>None\<close> gives the end time \<open>None\<close>.  (A
  local start that is \<open>None\<close> gives the start of the segment.)
\<close>

theorem C5_chunk_timestamps_offset:
  assumes "whisper_model (path seg) = Inr result"
      and "result_chunks result = Some cs"
  shows "\<exists>new. transcribe_segment whisper_model full_transcript seg = full_transcript @ new
           \<and> length new = length cs
           \<and> (\<forall>j<length cs.
                 chunk_text (new ! j) = raw_text (cs ! j)
                 \<and> (\<forall>t. fst (timestamp (cs ! j)) = Some t \<longrightarrow>
                        start_time (new ! j) = real_of_int (start_ms seg) / 1000 + t)
                 \<and> (fst (timestamp (cs ! j)) = None \<longrightarrow>
                        start_time (new ! j) = real_of_int (start_ms seg) / 1000)
                 \<and> (\<forall>t. snd (timestamp (cs ! j)) = Some t \<longrightarrow>
                        end_time (new ! j) = Some (real_of_int (start_ms seg) / 1000 + t))
                 \<and> (snd (timestamp (cs ! j)) = None \<longrightarrow> end_time (new ! j) = None))"
proof -
  let ?new = "map (offset_chunk (real_of_int (start_ms seg) / 1000)) cs"
  have "transcribe_segment whisper_model full_transcript seg = full_transcript @ ?new"
    using assms by (rule transcribe_segment_chunks)
  moreover have "length ?new = length cs" by simp
  moreover have "\<forall>j<length cs.
                 chunk_text (?new ! j) = raw_text (cs ! j)
                 \<and> (\<forall>t. fst (timestamp (cs ! j)) = Some t \<longrightarrow>
                        start_time (?new ! j) = real_of_int (start_ms seg) / 1000 + t)
                 \<and> (fst (timestamp (cs ! j)) = None \<longrightarrow>
                        start_time (?new ! j) = real_of_int (start_ms seg) / 1000)
                 \<and> (\<forall>t. snd (timestamp (cs ! j)) = Some t \<longrightarrow>
                        end_time (?new ! j) = Some (real_of_int (start_ms seg) / 1000 + t))
                 \<and> (snd (timestamp (cs ! j)) = None \<longrightarrow> end_time (?new ! j) = None)"
    by (simp add: offset_chunk_def)
  ultimately show ?thesis by blast
qed

theorem C5_chunk_timestamps_offset_witness:
  "\<exists>new. transcribe_segment model_lec65 [] (lec65_segs ! 2) = [] @ new
           \<and> length new = length bye_chunks
           \<and> (\<forall>j<length bye_chunks.
                 chunk_text (new ! j) = raw_text (bye_chunks ! j)
                 \<and> (\<forall>t. fst (timestamp (bye_chunks ! j)) = Some t \<longrightarrow>
                        start_time (new ! j) = real_of_int (start_ms (lec65_segs ! 2)) / 1000 + t)
                 \<and> (fst (timestamp (bye_chunks ! j)) = None \<longrightarrow>
                        start_time (new ! j) = real_of_int (start_ms (lec65_segs ! 2)) / 1000)
                 \<and> (\<forall>t. snd (timestamp (bye_chunks ! j)) = Some t \<longrightarrow>
                        end_time (new ! j) = Some (real_of_int (start_ms (lec65_segs ! 2)) / 1000 + t))
                 \<and> (snd (timestamp (bye_chunks ! j)) = None \<longrightarrow> end_time (new ! j) = None))"
  by (rule C5_chunk_timestamps_offset[where result =
        "\<lparr>result_chunks = Some bye_chunks, result_text = Some ''bye''\<rparr>"])
     (simp_all add: model_lec65_def lec65_segs_def)

lemma bye_chunk_absolute:
  "transcribe_segment model_lec65 [] (lec65_segs ! 2)
     = [\<lparr>chunk_text = ''bye'', start_time = 61, end_time = None\<rparr>]"
  by (simp add: transcribe_segment_def model_lec65_def lec65_segs_def bye_chunks_def
      offset_chunk_def)

section \<open>A segment whose transcription raises: claim C6\<close>

lemma offset_chunk_explicit:
  "offset_chunk x =
     (\<lambda>c. \<lparr>chunk_text = raw_text c,
           start_time = (case fst (timestamp c) of Some t \<Rightarrow> x + t | None \<Rightarrow> x),
           end_time = (case snd (timestamp c) of Some t \<Rightarrow> Some (x + t) | None \<Rightarrow> None)\<rparr>)"
  by (rule ext) (simp add: offset_chunk_def)

text \<open>
  The transcript in terms of what the capability returned: for every segment in order,
  nothing when the call raised, the returned chunks in order with their times offset,
  or the one chunk made of the returned text.
\<close>

lemma transcribe_segments_returned:
  "transcribe_segments whisper_model segs
     = concat (map (\<lambda>s. (case whisper_model (path s) of
                    Inl ex' \<Rightarrow> []
                  | Inr r \<Rightarrow>
                      (case result_chunks r of
                         Some cs \<Rightarrow>
                           map (\<lambda>c.
                                 \<lparr>chunk_text = raw_text c,
                                  start_time =
                                    (case fst (timestamp c) of
                                       Some t \<Rightarrow> real_of_int (start_ms s) / 1000 + t
                                     | None \<Rightarrow> real_of_int (start_ms s) / 1000),
                                  end_time =
                                    (case snd (timestamp c) of
                                       Some t \<Rightarrow> Some (real_of_int (start_ms s) / 1000 + t)
                                     | None \<Rightarrow> None)\<rparr>) cs
                       | None \<Rightarrow>
                           (case result_text r of
                              Some t \<Rightarrow>
                                [\<lparr>chunk_text = t,
                                  start_time = real_of_int (start_ms s) / 1000,
                                  end_time =
                                    Some (real_of_int (start_ms s) / 1000
                                            + real_of_int (duration_ms s) / 1000)\<rparr>]
                            | None \<Rightarrow> [])))) segs)"
  unfolding transcribe_segments_concat
  by (rule arg_cong[where f = concat], rule map_cong[OF refl])
     (simp add: transcribe_segment_def foldl_snoc_map offset_chunk_explicit Let_def
        split: sum.splits option.splits)

lemma process_recording_done:
  assumes "find_video e (py_stem audio) (audio_path_of audio) = Inr vpath"
      and "segmenter e (py_stem audio) (audio_path_of audio) = Done segs"
      and "\<not> io_fails e TRANSCRIPTS_DIR"
      and "\<not> io_fails e (transcript_path_of (py_stem audio))"
  shows "process_recording e w audio
           = Inr (Some (Success (audio_path_of audio) (transcript_path_of (py_stem audio))
                    (length (py_split_ws (transcript_text
                       (stitch (py_stem audio) vpath segs (transcribe_segments w segs)))))),
                  Some (transcript_path_of (py_stem audio),
                        stitch (py_stem audio) vpath segs (transcribe_segments w segs)))"
  using assms by (simp add: process_recording_def Let_def)

lemma transcribe_segments_skip:
  assumes "k < length segs" "w (path (segs ! k)) = Inl ex"
  shows "transcribe_segments w segs = transcribe_segments w (take k segs @ drop (Suc k) segs)"
proof -
  have "segs = take k segs @ segs ! k # drop (Suc k) segs"
    using assms(1) by (simp add: id_take_nth_drop[symmetric])
  then have "transcribe_segments w segs
      = concat (map (transcribe_segment w []) (take k segs))
        @ transcribe_segment w [] (segs ! k)
        @ concat (map (transcribe_segment w []) (drop (Suc k) segs))"
    unfolding transcribe_segments_concat
    by (metis concat.simps(2) concat_append list.simps(9) map_append)
  then show ?thesis
    using assms(2) by (simp add: transcribe_segment_raises transcribe_segments_concat)
qed

lemma py_stem_lec1: "py_stem ''lec1.wav'' = ''lec1''"
  by (simp add: py_stem_def)

lemma lec65_no_video:
  "find_video env_lec65 (py_stem ''lec1.wav'') (audio_path_of ''lec1.wav'')
     = Inr (audio_path_of ''lec1.wav'')"
  by (simp add: py_stem_lec1 find_video_def possible_video_extensions_def path_glob_def
      contains_def env_lec65_def env0_def)

lemma lec65_segments_stem:
  "segmenter env_lec65 (py_stem ''lec1.wav'') (audio_path_of ''lec1.wav'') = Done lec65_segs"
  by (simp add: py_stem_lec1 lec65_segments)

text \<open>
  Claim C6: when the call for segment \<open>k\<close> of a recording raises, the recording is not
  aborted: its transcript is written and the recording is logged as a success.  The
  transcript holds what the capability returned for the other segments, in the order
  of the segments and, within a segment, in the order of the returned chunks (with the
  times offset by the start of the segment); the failed segment contributes nothing.
  The hypotheses are those of reaching the transcription loop and of writing the
  transcript: the lookup of the reference video does not raise, the segmentation
  step returned segments, the transcript file can be written.
\<close>

theorem C6_failed_segment_excluded:
  assumes "find_video e (py_stem audio) (audio_path_of audio) = Inr vpath"
      and "segmenter e (py_stem audio) (audio_path_of audio) = Done segs"
      and "k < length segs"
      and "whisper_model (path (segs ! k)) = Inl ex"
      and "\<not> io_fails e TRANSCRIPTS_DIR"
      and "\<not> io_fails e (transcript_path_of (py_stem audio))"
  shows "\<exists>n tr. process_recording e whisper_model audio
                  = Inr (Some (Success (audio_path_of audio)
                                 (transcript_path_of (py_stem audio)) n),
                         Some (transcript_path_of (py_stem audio), tr))
           \<and> chunks tr
               = concat (map (\<lambda>s. (case whisper_model (path s) of
                    Inl ex' \<Rightarrow> []
                  | Inr r \<Rightarrow>
                      (case result_chunks r of
                         Some cs \<Rightarrow>
                           map (\<lambda>c.
                                 \<lparr>chunk_text = raw_text c,
                                  start_time =
                                    (case fst (timestamp c) of
                                       Some t \<Rightarrow> real_of_int (start_ms s) / 1000 + t
                                     | None \<Rightarrow> real_of_int (start_ms s) / 1000),
                                  end_time =
                                    (case snd (timestamp c) of
                                       Some t \<Rightarrow> Some (real_of_int (start_ms s) / 1000 + t)
                                     | None \<Rightarrow> None)\<rparr>) cs
                       | None \<Rightarrow>
                           (case result_text r of
                              Some t \<Rightarrow>
                                [\<lparr>chunk_text = t,
                                  start_time = real_of_int (start_ms s) / 1000,
                                  end_time =
                                    Some (real_of_int (start_ms s) / 1000
                                            + real_of_int (duration_ms s) / 1000)\<rparr>]
                            | None \<Rightarrow> [])))) (take k segs @ drop (Suc k) segs))"
proof -
  let ?tr = "stitch (py_stem audio) vpath segs (transcribe_segments whisper_model segs)"
  have "process_recording e whisper_model audio
          = Inr (Some (Success (audio_path_of audio) (transcript_path_of (py_stem audio))
                         (length (py_split_ws (transcript_text ?tr)))),
                 Some (transcript_path_of (py_stem audio), ?tr))"
    using assms(1,2,5,6) by (rule process_recording_done)
  moreover have "chunks ?tr
      = transcribe_segments whisper_model (take k segs @ drop (Suc k) segs)"
    using transcribe_segments_skip[of k segs whisper_model ex] assms(3,4)
    by (simp add: stitch_def)
  ultimately show ?thesis
    unfolding transcribe_segments_returned by blast
qed

theorem C6_failed_segment_excluded_witness:
  "\<exists>n tr. process_recording env_lec65 model_lec65 ''lec1.wav''
                  = Inr (Some (Success (audio_path_of ''lec1.wav'')
                                 (transcript_path_of (py_stem ''lec1.wav'')) n),
                         Some (transcript_path_of (py_stem ''lec1.wav''), tr))
           \<and> chunks tr
               = [\<lparr>chunk_text = ''Hello'', start_time = 0, end_time = Some 2\<rparr>,
                        \<lparr>chunk_text = ''world'', start_time = 2, end_time = Some 4\<rparr>,
                        \<lparr>chunk_text = ''bye'', start_time = 61, end_time = None\<rparr>]"
proof -
  have k: "1 < length lec65_segs" by (simp add: lec65_segs_def)
  have raises: "model_lec65 (path (lec65_segs ! 1)) = Inl (ModelError ''out of memory'')"
    by (simp add: model_lec65_def lec65_segs_def)
  have io: "\<not> io_fails env_lec65 TRANSCRIPTS_DIR"
    "\<not> io_fails env_lec65 (transcript_path_of (py_stem ''lec1.wav''))"
    by (simp_all add: env_lec65_def env0_def)
  from C6_failed_segment_excluded[where whisper_model = model_lec65 and k = 1
      and segs = lec65_segs and ex = "ModelError ''out of memory''",
      OF lec65_no_video lec65_segments_stem k raises io]
  show ?thesis
    by (simp add: lec65_segs_def model_lec65_def hello_chunks_def bye_chunks_def)
qed

text \<open>
  The transcript of \<open>lec1\<close> when the call for its second segment raises: the chunks of
  the first and the third segment, with absolute times.
\<close>

lemma lec65_transcript:
  "process_recording env_lec65 model_lec65 ''lec1.wav''
     = Inr (Some (Success ''data/processed/audio/lec1.wav''
                    ''data/processed/transcripts/lec1_transcript.json'' 3),
            Some (''data/processed/transcripts/lec1_transcript.json'',
             \<lparr>video_name = ''lec1'', video_path = ''data/processed/audio/lec1.wav'',
              duration_seconds = 65,
              chunks = [\<lparr>chunk_text = ''Hello'', start_time = 0, end_time = Some 2\<rparr>,
                        \<lparr>chunk_text = ''world'', start_time = 2, end_time = Some 4\<rparr>,
                        \<lparr>chunk_text = ''bye'', start_time = 61, end_time = None\<rparr>],
              transcript_text = ''Hello world bye''\<rparr>))"
proof -
  have io: "\<not> io_fails env_lec65 TRANSCRIPTS_DIR"
    "\<not> io_fails env_lec65 (transcript_path_of (py_stem ''lec1.wav''))"
    by (simp_all add: env_lec65_def env0_def)
  have t: "transcribe_segments model_lec65 lec65_segs
             = [\<lparr>chunk_text = ''Hello'', start_time = 0, end_time = Some 2\<rparr>,
                        \<lparr>chunk_text = ''world'', start_time = 2, end_time = Some 4\<rparr>,
                        \<lparr>chunk_text = ''bye'', start_time = 61, end_time = None\<rparr>]"
    by (simp add: transcribe_segments_concat transcribe_segment_def lec65_segs_def
        model_lec65_def hello_chunks_def bye_chunks_def offset_chunk_def)
  have w: "py_split_ws ''Hello world bye'' = [''Hello'', ''world'', ''bye'']"
    by (simp add: py_split_ws_def is_space_def)
  show ?thesis
    unfolding process_recording_done[OF lec65_no_video lec65_segments_stem io] t
    by (simp add: stitch_def lec65_segs_def audio_path_of_def AUDIO_DIR_def py_stem_lec1
        transcript_path_of_def TRANSCRIPTS_DIR_def os_path_join_def w)
qed

section \<open>Stitcher: claim C8\<close>

lemma transcribe_segments_all_raise:
  assumes "\<forall>s\<in>set segs. \<exists>ex. w (path s) = Inl ex"
  shows "transcribe_segments w segs = []"
proof -
  have "transcribe_segment w [] s = []" if "s \<in> set segs" for s
    using assms that by (auto simp: transcribe_segment_def)
  then show ?thesis
    by (simp add: transcribe_segments_concat)
qed

text \<open>\<open>sep.join\<close> in terms of the list library: the first text, then each other text after \<open>sep\<close>.\<close>

lemma py_join_explicit:
  "py_join sep xs = (case xs of [] \<Rightarrow> [] | t # ts \<Rightarrow> t @ concat (map (\<lambda>x. sep @ x) ts))"
proof (induction sep xs rule: py_join.induct)
  case (1 sep)
  then show ?case by simp
next
  case (2 sep x)
  then show ?case by simp
next
  case (3 sep x y zs)
  then show ?case by simp
qed

text \<open>
  Claim C8: whatever the capability does (also when every call raises), a recording
  that reached the transcription loop and whose transcript can be written gets a
  transcript.  Its chunks are what the capability returned, segment by segment.  Its
  text is the texts of its chunks joined by single spaces: the first text, then every
  other text after one space.  Its duration is the end of the last segment divided by
  1000, or 0 when there is no segment.  When every call raises, the list of chunks and
  the text are empty.
\<close>

theorem C8_transcript_text_and_duration:
  assumes "find_video e (py_stem audio) (audio_path_of audio) = Inr vpath"
      and "segmenter e (py_stem audio) (audio_path_of audio) = Done segs"
      and "\<not> io_fails e TRANSCRIPTS_DIR"
      and "\<not> io_fails e (transcript_path_of (py_stem audio))"
  shows "\<exists>n tr. process_recording e whisper_model audio
                  = Inr (Some (Success (audio_path_of audio)
                                 (transcript_path_of (py_stem audio)) n),
                         Some (transcript_path_of (py_stem audio), tr))
           \<and> chunks tr
               = concat (map (\<lambda>s. (case whisper_model (path s) of
                    Inl ex' \<Rightarrow> []
                  | Inr r \<Rightarrow>
                      (case result_chunks r of
                         Some cs \<Rightarrow>
                           map (\<lambda>c.
                                 \<lparr>chunk_text = raw_text c,
                                  start_time =
                                    (case fst (timestamp c) of
                                       Some t \<Rightarrow> real_of_int (start_ms s) / 1000 + t
                                     | None \<Rightarrow> real_of_int (start_ms s) / 1000),
                                  end_time =
                                    (case snd (timestamp c) of
                                       Some t \<Rightarrow> Some (real_of_int (start_ms s) / 1000 + t)
                                     | None \<Rightarrow> None)\<rparr>) cs
                       | None \<Rightarrow>
                           (case result_text r of
                              Some t \<Rightarrow>
                                [\<lparr>chunk_text = t,
                                  start_time = real_of_int (start_ms s) / 1000,
                                  end_time =
                                    Some (real_of_int (start_ms s) / 1000
                                            + real_of_int (duration_ms s) / 1000)\<rparr>]
                            | None \<Rightarrow> [])))) segs)
           \<and> transcript_text tr
               = (case map chunk_text (chunks tr) of
                    [] \<Rightarrow> []
                  | t # ts \<Rightarrow> t @ concat (map (\<lambda>x. '' '' @ x) ts))
           \<and> duration_seconds tr
               = (if segs = [] then 0 else real_of_int (end_ms (last segs)) / 1000)
           \<and> ((\<forall>s\<in>set segs. \<exists>ex. whisper_model (path s) = Inl ex) \<longrightarrow>
                  chunks tr = [] \<and> transcript_text tr = [])"
proof -
  let ?tr = "stitch (py_stem audio) vpath segs (transcribe_segments whisper_model segs)"
  have "process_recording e whisper_model audio
          = Inr (Some (Success (audio_path_of audio) (transcript_path_of (py_stem audio))
                         (length (py_split_ws (transcript_text ?tr)))),
                 Some (transcript_path_of (py_stem audio), ?tr))"
    using assms by (rule process_recording_done)
  moreover have "chunks ?tr = transcribe_segments whisper_model segs"
    by (simp add: stitch_def)
  moreover have "transcript_text ?tr
               = (case map chunk_text (chunks ?tr) of
                    [] \<Rightarrow> []
                  | t # ts \<Rightarrow> t @ concat (map (\<lambda>x. '' '' @ x) ts))"
    by (simp add: stitch_def py_join_explicit[of "'' ''"])
  moreover have "duration_seconds ?tr
               = (if segs = [] then 0 else real_of_int (end_ms (last segs)) / 1000)"
    by (simp add: stitch_def)
  moreover have "(\<forall>s\<in>set segs. \<exists>ex. whisper_model (path s) = Inl ex) \<longrightarrow>
                  chunks ?tr = [] \<and> transcript_text ?tr = []"
    by (simp add: stitch_def transcribe_segments_all_raise)
  ultimately show ?thesis
    unfolding transcribe_segments_returned by blast
qed

theorem C8_transcript_text_and_duration_witness:
  "(\<exists>n tr. process_recording env_lec65 model_lec65 ''lec1.wav''
                  = Inr (Some (Success (audio_path_of ''lec1.wav'')
                                 (transcript_path_of (py_stem ''lec1.wav'')) n),
                         Some (transcript_path_of (py_stem ''lec1.wav''), tr))
           \<and> chunks tr
               = [\<lparr>chunk_text = ''Hello'', start_time = 0, end_time = Some 2\<rparr>,
                        \<lparr>chunk_text = ''world'', start_time = 2, end_time = Some 4\<rparr>,
                        \<lparr>chunk_text = ''bye'', start_time = 61, end_time = None\<rparr>]
           \<and> transcript_text tr = ''Hello world bye''
           \<and> duration_seconds tr = 65)
   \<and> (\<exists>n tr. process_recording env_lec65 failing_model ''lec1.wav''
                  = Inr (Some (Success (audio_path_of ''lec1.wav'')
                                 (transcript_path_of (py_stem ''lec1.wav'')) n),
                         Some (transcript_path_of (py_stem ''lec1.wav''), tr))
           \<and> chunks tr = []
           \<and> transcript_text tr = []
           \<and> duration_seconds tr = 65)"
proof -
  have io: "\<not> io_fails env_lec65 TRANSCRIPTS_DIR"
    "\<not> io_fails env_lec65 (transcript_path_of (py_stem ''lec1.wav''))"
    by (simp_all add: env_lec65_def env0_def)
  have all: "\<forall>s\<in>set lec65_segs. \<exists>ex. failing_model (path s) = Inl ex"
    by (simp add: failing_model_def)
  have last: "real_of_int (end_ms (last lec65_segs)) / 1000 = 65" "lec65_segs \<noteq> []"
    by (simp_all add: lec65_segs_def)
  from C8_transcript_text_and_duration[OF lec65_no_video lec65_segments_stem io,
      of model_lec65]
  obtain n tr where a: "process_recording env_lec65 model_lec65 ''lec1.wav''
                  = Inr (Some (Success (audio_path_of ''lec1.wav'')
                                 (transcript_path_of (py_stem ''lec1.wav'')) n),
                         Some (transcript_path_of (py_stem ''lec1.wav''), tr))"
      "chunks tr
               = concat (map (\<lambda>s. (case model_lec65 (path s) of
                    Inl ex' \<Rightarrow> []
                  | Inr r \<Rightarrow>
                      (case result_chunks r of
                         Some cs \<Rightarrow>
                           map (\<lambda>c.
                                 \<lparr>chunk_text = raw_text c,
                                  start_time =
                                    (case fst (timestamp c) of
                                       Some t \<Rightarrow> real_of_int (start_ms s) / 1000 + t
                                     | None \<Rightarrow> real_of_int (start_ms s) / 1000),
                                  end_time =
                                    (case snd (timestamp c) of
                                       Some t \<Rightarrow> Some (real_of_int (start_ms s) / 1000 + t)
                                     | None \<Rightarrow> None)\<rparr>) cs
                       | None \<Rightarrow>
                           (case result_text r of
                              Some t \<Rightarrow>
                                [\<lparr>chunk_text = t,
                                  start_time = real_of_int (start_ms s) / 1000,
                                  end_time =
                                    Some (real_of_int (start_ms s) / 1000
                                            + real_of_int (duration_ms s) / 1000)\<rparr>]
                            | None \<Rightarrow> [])))) lec65_segs)"
      "transcript_text tr
               = (case map chunk_text (chunks tr) of
                    [] \<Rightarrow> []
                  | t # ts \<Rightarrow> t @ concat (map (\<lambda>x. '' '' @ x) ts))"
      "duration_seconds tr
               = (if lec65_segs = [] then 0 else real_of_int (end_ms (last lec65_segs)) / 1000)"
    by blast
  have c: "chunks tr
             = [\<lparr>chunk_text = ''Hello'', start_time = 0, end_time = Some 2\<rparr>,
                        \<lparr>chunk_text = ''world'', start_time = 2, end_time = Some 4\<rparr>,
                        \<lparr>chunk_text = ''bye'', start_time = 61, end_time = None\<rparr>]"
    unfolding a(2)
    by (simp add: lec65_segs_def model_lec65_def hello_chunks_def bye_chunks_def)
  have t: "transcript_text tr = ''Hello world bye''"
    unfolding a(3) c by simp
  have d: "duration_seconds tr = 65"
    unfolding a(4) using last by simp
  from C8_transcript_text_and_duration[OF lec65_no_video lec65_segments_stem io,
      of failing_model]
  obtain n' tr' where b: "process_recording env_lec65 failing_model ''lec1.wav''
                  = Inr (Some (Success (audio_path_of ''lec1.wav'')
                                 (transcript_path_of (py_stem ''lec1.wav'')) n'),
                         Some (transcript_path_of (py_stem ''lec1.wav''), tr'))"
      "duration_seconds tr'
               = (if lec65_segs = [] then 0 else real_of_int (end_ms (last lec65_segs)) / 1000)"
      "(\<forall>s\<in>set lec65_segs. \<exists>ex. failing_model (path s) = Inl ex) \<longrightarrow>
                  chunks tr' = [] \<and> transcript_text tr' = []"
    by blast
  from b(3) all have e: "chunks tr' = []" "transcript_text tr' = []" by blast+
  have f: "duration_seconds tr' = 65"
    unfolding b(2) using last by simp
  from a(1) c t d b(1) e f show ?thesis by blast
qed

section \<open>Start times across segments: claim C9\<close>

lemma segmenter_start_ms:
  assumes "segmenter e name ap = Done segs" "i < length segs"
  shows "start_ms (segs ! i) = int i * 30000"
proof (cases "segment_glob e (segment_dir_of name) = []")
  case True
  with assms(1) obtain D where
    "export_loop e name (int D) [0..<nat (num_segments (int D))] [] = Inr segs"
    by (auto simp: segmenter_def Let_def split: if_splits option.splits sum.splits)
  then have "segs = map (fresh_segment name (int D)) [0..<nat (num_segments (int D))]"
    using export_loop_Inr by fastforce
  with assms(2) show ?thesis
    by (simp add: fresh_segment_fields)
next
  case False
  with assms(1) obtain xs where "segs = reuse_segments e xs"
    by (auto simp: segmenter_def Let_def split: if_splits option.splits sum.splits)
  with assms(2) show ?thesis
    by (simp add: reuse_segments_def reuse_segment_def nth_enumerate_eq segment_length_ms_def
        Let_def)
qed

lemma start_time_offset_chunk: "start_time (offset_chunk s c) = s + local_start c"
  by (simp add: offset_chunk_def local_start_def split: option.splits)

lemma sorted_map_add:
  fixes xs :: "real list"
  shows "sorted xs \<Longrightarrow> sorted (map (\<lambda>x. s + x) xs)"
  by (induction xs) auto

lemma segment_block:
  assumes "\<forall>r cs. w (path seg) = Inr r \<longrightarrow> result_chunks r = Some cs \<longrightarrow>
             timestamps_ok cs \<and> within_window cs"
  shows "sorted (map start_time (transcribe_segment w [] seg))
         \<and> (\<forall>c\<in>set (transcribe_segment w [] seg).
               real_of_int (start_ms seg) / 1000 \<le> start_time c
               \<and> start_time c \<le> real_of_int (start_ms seg) / 1000 + 30)"
proof (cases "w (path seg)")
  case (Inl ex)
  then show ?thesis by (simp add: transcribe_segment_def)
next
  case (Inr r)
  show ?thesis
  proof (cases "result_chunks r")
    case None
    with Inr show ?thesis
      by (simp add: transcribe_segment_def Let_def split: option.splits)
  next
    case (Some cs)
    with Inr assms have ok: "timestamps_ok cs" "within_window cs" by blast+
    let ?s = "real_of_int (start_ms seg) / 1000"
    have eq: "transcribe_segment w [] seg = map (offset_chunk ?s) cs"
      using transcribe_segment_chunks[of w seg r cs "[]"] Inr Some by simp
    have m: "map start_time (map (offset_chunk ?s) cs) = map (\<lambda>x. ?s + x) (map local_start cs)"
      by (simp add: start_time_offset_chunk)
    have "sorted (map local_start cs)" using ok(1) by (simp add: timestamps_ok_def)
    then have srt: "sorted (map start_time (transcribe_segment w [] seg))"
      unfolding eq m by (rule sorted_map_add)
    have "?s \<le> start_time c \<and> start_time c \<le> ?s + 30"
      if "c \<in> set (transcribe_segment w [] seg)" for c
    proof -
      from that obtain rc where rc: "rc \<in> set cs" "c = offset_chunk ?s rc"
        unfolding eq by auto
      from rc(1) ok have "0 \<le> local_start rc" "local_start rc \<le> 30"
        by (auto simp: timestamps_ok_def within_window_def list_all_iff)
      then show ?thesis by (simp add: rc(2) start_time_offset_chunk)
    qed
    with srt show ?thesis by blast
  qed
qed

lemma results_all:
  "results_ok w segs \<and> results_within w segs \<longleftrightarrow>
     (\<forall>s\<in>set segs. \<forall>r cs. w (path s) = Inr r \<longrightarrow> result_chunks r = Some cs \<longrightarrow>
        timestamps_ok cs \<and> within_window cs)"
  by (auto simp: results_ok_def results_within_def list_all_iff
      split: sum.splits option.splits)

lemma blocks_sorted:
  assumes "\<forall>i<length segs. start_ms (segs ! i) = int i * 30000"
      and "\<forall>s\<in>set segs. \<forall>r cs. w (path s) = Inr r \<longrightarrow> result_chunks r = Some cs \<longrightarrow>
             timestamps_ok cs \<and> within_window cs"
  shows "sorted (map start_time (concat (map (transcribe_segment w []) segs)))
         \<and> (\<forall>c\<in>set (concat (map (transcribe_segment w []) segs)).
               start_time c \<le> 30 * real (length segs))"
  using assms
proof (induction segs rule: rev_induct)
  case Nil
  then show ?case by simp
next
  case (snoc s segs)
  have starts: "\<forall>i<length segs. start_ms (segs ! i) = int i * 30000"
  proof (intro allI impI)
    fix i assume i: "i < length segs"
    then have "start_ms ((segs @ [s]) ! i) = int i * 30000"
      using snoc.prems(1) by (metis length_append_singleton less_SucI)
    with i show "start_ms (segs ! i) = int i * 30000" by (simp add: nth_append)
  qed
  have oks: "\<forall>s\<in>set segs. \<forall>r cs. w (path s) = Inr r \<longrightarrow> result_chunks r = Some cs \<longrightarrow>
             timestamps_ok cs \<and> within_window cs"
    using snoc.prems(2) by simp
  from snoc.IH[OF starts oks] have
    ih1: "sorted (map start_time (concat (map (transcribe_segment w []) segs)))" and
    ih2: "\<forall>c\<in>set (concat (map (transcribe_segment w []) segs)).
            start_time c \<le> 30 * real (length segs)"
    by blast+
  have "start_ms ((segs @ [s]) ! length segs) = int (length segs) * 30000"
    using snoc.prems(1) by (metis length_append_singleton lessI)
  then have st: "real_of_int (start_ms s) / 1000 = 30 * real (length segs)"
    by simp
  have "\<forall>r cs. w (path s) = Inr r \<longrightarrow> result_chunks r = Some cs \<longrightarrow>
             timestamps_ok cs \<and> within_window cs"
    using snoc.prems(2) by simp
  with segment_block[of w s] have
    b1: "sorted (map start_time (transcribe_segment w [] s))" and
    b2: "\<forall>c\<in>set (transcribe_segment w [] s).
           30 * real (length segs) \<le> start_time c
           \<and> start_time c \<le> 30 * real (length segs) + 30"
    unfolding st by blast+
  have cross: "\<forall>x\<in>set (concat (map (transcribe_segment w []) segs)).
                 \<forall>y\<in>set (transcribe_segment w [] s). start_time x \<le> start_time y"
    using ih2 b2 by fastforce
  have "sorted (map start_time (concat (map (transcribe_segment w []) (segs @ [s]))))"
    using ih1 b1 cross by (simp add: sorted_append)
  moreover have "\<forall>c\<in>set (concat (map (transcribe_segment w []) (segs @ [s]))).
               start_time c \<le> 30 * real (length (segs @ [s]))"
    using ih2 b2 by fastforce
  ultimately show ?case by blast
qed


text \<open>
  Claim C9, amended: when the segments come from the segmenter and, in every result
  that holds chunks, the local starts are non-negative and non-decreasing
  (\<open>results_ok\<close>) and at most 30 seconds, the window (\<open>results_within\<close>), the start times
  of the transcript are non-decreasing; and every chunk of the segment of index 1
  starts at 30 seconds or later.
\<close>

theorem C9_start_times_monotone:
  assumes "segmenter e name audio_path = Done segs"
      and "results_ok whisper_model segs"
      and "results_within whisper_model segs"
  shows "sorted (map start_time (transcribe_segments whisper_model segs))
         \<and> (1 < length segs \<longrightarrow>
              (\<forall>c\<in>set (transcribe_segment whisper_model [] (segs ! 1)). 30 \<le> start_time c))"
proof -
  have starts: "\<forall>i<length segs. start_ms (segs ! i) = int i * 30000"
    using segmenter_start_ms[OF assms(1)] by blast
  have oks: "\<forall>s\<in>set segs. \<forall>r cs. whisper_model (path s) = Inr r \<longrightarrow>
             result_chunks r = Some cs \<longrightarrow> timestamps_ok cs \<and> within_window cs"
    using assms(2,3) results_all[of whisper_model segs] by blast
  from blocks_sorted[OF starts oks]
  have "sorted (map start_time (transcribe_segments whisper_model segs))"
    by (simp add: transcribe_segments_concat)
  moreover have "\<forall>c\<in>set (transcribe_segment whisper_model [] (segs ! 1)). 30 \<le> start_time c"
    if "1 < length segs"
  proof -
    from that have "segs ! 1 \<in> set segs" by simp
    with oks have "\<forall>r cs. whisper_model (path (segs ! 1)) = Inr r \<longrightarrow>
        result_chunks r = Some cs \<longrightarrow> timestamps_ok cs \<and> within_window cs"
      by blast
    with segment_block[of whisper_model "segs ! 1"]
    have "\<forall>c\<in>set (transcribe_segment whisper_model [] (segs ! 1)).
            real_of_int (start_ms (segs ! 1)) / 1000 \<le> start_time c"
      by blast
    moreover have "start_ms (segs ! 1) = 30000"
      using starts that by simp
    ultimately show ?thesis by simp
  qed
  ultimately show ?thesis by blast
qed

theorem C9_start_times_monotone_witness:
  "sorted (map start_time (transcribe_segments model_steady lec65_segs))
   \<and> 1 < length lec65_segs
   \<and> transcribe_segment model_steady [] (lec65_segs ! 1) \<noteq> []
   \<and> list_all (\<lambda>c. 30 \<le> start_time c) (transcribe_segment model_steady [] (lec65_segs ! 1))"
proof -
  have ok: "results_ok model_steady lec65_segs"
    by (simp add: results_ok_def model_steady_def hello_chunks_def timestamps_ok_def
        local_start_def lec65_segs_def)
  have within: "results_within model_steady lec65_segs"
    by (simp add: results_within_def model_steady_def hello_chunks_def within_window_def
        local_start_def lec65_segs_def)
  have len: "1 < length lec65_segs" by (simp add: lec65_segs_def)
  have ne: "transcribe_segment model_steady [] (lec65_segs ! 1) \<noteq> []"
    by (simp add: transcribe_segment_def model_steady_def hello_chunks_def lec65_segs_def)
  from C9_start_times_monotone[OF lec65_segments ok within] len ne show ?thesis
    by (simp add: list_all_iff)
qed

text \<open>
  Claim C9 as stated asks only for non-negative, non-decreasing local starts.  That is
  not enough: nothing keeps a local start within the window.  With a chunk that starts
  31 seconds into segment 0, the start times of \<open>lec1\<close> are 31, 30, 60.
\<close>

theorem C9_late_chunk_counterexample:
  "segmenter env_lec65 ''lec1'' (audio_path_of ''lec1.wav'') = Done lec65_segs
   \<and> results_ok model_late lec65_segs
   \<and> map start_time (transcribe_segments model_late lec65_segs) = [31, 30, 60]
   \<and> \<not> sorted (map start_time (transcribe_segments model_late lec65_segs))"
proof -
  have a: "results_ok model_late lec65_segs"
    by (simp add: results_ok_def lec65_segs_def model_late_def timestamps_ok_def
        local_start_def)
  have b: "map start_time (transcribe_segments model_late lec65_segs) = [31, 30, 60]"
    by (simp add: transcribe_segments_concat transcribe_segment_def lec65_segs_def
        model_late_def offset_chunk_def)
  have c: "\<not> sorted (map start_time (transcribe_segments model_late lec65_segs))"
    unfolding b by simp
  show ?thesis
    by (intro conjI lec65_segments a b c)
qed

section \<open>Reuse of existing segments: claim C7\<close>

lemma segmenter_fresh_Done:
  assumes "segmenter e name ap = Done segs" "segment_glob e (segment_dir_of name) = []"
  obtains D where "from_file e ap = Some D"
    "segs = map (fresh_segment name (int D)) [0..<nat (num_segments (int D))]"
proof -
  from assms obtain D where D: "from_file e ap = Some D"
    "export_loop e name (int D) [0..<nat (num_segments (int D))] [] = Inr segs"
    by (auto simp: segmenter_def Let_def split: if_splits option.splits sum.splits)
  from D(2) have "segs = map (fresh_segment name (int D)) [0..<nat (num_segments (int D))]"
    using export_loop_Inr by fastforce
  with D(1) show ?thesis by (rule that)
qed

lemma segmenter_reuse:
  assumes "\<not> io_fails e (segment_dir_of name)"
      and "n \<noteq> 0"
      and "mset (segment_glob e (segment_dir_of name)) = mset (map (segment_path_of name) [0..<n])"
  shows "segmenter e name ap = Done (reuse_segments e (map (segment_path_of name) [0..<n]))"
proof -
  from assms(2,3) have "segment_glob e (segment_dir_of name) \<noteq> []"
    by (metis length_map length_upt mset_eq_length diff_zero list.size(3))
  with assms(1) sorted_by_key_permutation[OF assms(3)] show ?thesis
    by (simp add: segmenter_def)
qed

lemma reuse_segments_nth:
  assumes "i < length ps"
  shows "reuse_segments e ps ! i
           = \<lparr>path = ps ! i, start_ms = int i * 30000,
               end_ms = int i * 30000
                  + (case from_file e (ps ! i) of Some n \<Rightarrow> int n | None \<Rightarrow> 30000),
               duration_ms = (case from_file e (ps ! i) of Some n \<Rightarrow> int n | None \<Rightarrow> 30000)\<rparr>"
  using assms
  by (simp add: reuse_segments_def reuse_segment_def nth_enumerate_eq segment_length_ms_def
      Let_def split: option.splits)

lemma reuse_segments_length: "length (reuse_segments e ps) = length ps"
  by (simp add: reuse_segments_def)

lemma reuse_segments_paths: "map path (reuse_segments e ps) = ps"
  by (rule nth_equalityI) (simp_all add: reuse_segments_length reuse_segments_nth)

lemma reuse_segments_starts:
  "map start_ms (reuse_segments e ps) = map (\<lambda>i. int i * 30000) [0..<length ps]"
  by (rule nth_equalityI) (simp_all add: reuse_segments_length reuse_segments_nth)

text \<open>
  Claim C7, amended: after a first run that split a recording of positive length into
  segments (no artifact existed), a second run that finds exactly these artifacts in
  the segment directory, listed in any order, does not split again: it sorts the
  listing by the number in the file name and returns as many segments, with the same
  paths and the same start offsets.  The duration of each is the length the probe of the
  artifact returns, or 30000 ms when the probe fails, and the end offset is the start
  plus that duration.  So a segment whose probe returns the length of the artifact is
  the segment of the first run; the second run does not read the source audio.
\<close>

theorem C7_reuse_after_fresh:
  assumes "segmenter e1 name audio_path = Done segs"
      and "segment_glob e1 (segment_dir_of name) = []"
      and "segs \<noteq> []"
      and "\<not> io_fails e2 (segment_dir_of name)"
      and "mset (segment_glob e2 (segment_dir_of name)) = mset (map path segs)"
  shows "\<exists>segs2. segmenter e2 name audio_path = Done segs2
           \<and> segs2 = reuse_segments e2 (map path segs)
           \<and> length segs2 = length segs
           \<and> map path segs2 = map path segs
           \<and> map start_ms segs2 = map start_ms segs
           \<and> (\<forall>i<length segs.
                 (\<forall>n. from_file e2 (path (segs ! i)) = Some n \<longrightarrow>
                    duration_ms (segs2 ! i) = int n
                    \<and> end_ms (segs2 ! i) = start_ms (segs ! i) + int n)
                 \<and> (from_file e2 (path (segs ! i)) = None \<longrightarrow>
                    duration_ms (segs2 ! i) = 30000
                    \<and> end_ms (segs2 ! i) = start_ms (segs ! i) + 30000)
                 \<and> (from_file e2 (path (segs ! i)) = Some (nat (duration_ms (segs ! i))) \<longrightarrow>
                    segs2 ! i = segs ! i))"
proof -
  obtain D where D: "from_file e1 audio_path = Some D"
    "segs = map (fresh_segment name (int D)) [0..<nat (num_segments (int D))]"
    using assms(1,2) by (rule segmenter_fresh_Done)
  define n where "n = nat (num_segments (int D))"
  have segs: "segs = map (fresh_segment name (int D)) [0..<n]"
    using D(2) by (simp add: n_def)
  have len: "length segs = n" by (simp add: segs)
  have paths: "map path segs = map (segment_path_of name) [0..<n]"
    by (simp add: segs fresh_segment_fields)
  have n0: "n \<noteq> 0" using assms(3) segs by auto
  define segs2 where "segs2 = reuse_segments e2 (map path segs)"
  have run: "segmenter e2 name audio_path = Done segs2"
    unfolding segs2_def paths
    using assms(4) n0 assms(5)[unfolded paths] by (rule segmenter_reuse)
  have len2: "length segs2 = length segs"
    by (simp add: segs2_def reuse_segments_length)
  have p2: "map path segs2 = map path segs"
    by (simp add: segs2_def reuse_segments_paths)
  have "map start_ms segs = map (\<lambda>i. int i * 30000) [0..<n]"
    by (simp add: segs fresh_segment_fields)
  then have s2: "map start_ms segs2 = map start_ms segs"
    by (simp add: segs2_def reuse_segments_starts len)
  have each: "(\<forall>k. from_file e2 (path (segs ! i)) = Some k \<longrightarrow>
                    duration_ms (segs2 ! i) = int k
                    \<and> end_ms (segs2 ! i) = start_ms (segs ! i) + int k)
                 \<and> (from_file e2 (path (segs ! i)) = None \<longrightarrow>
                    duration_ms (segs2 ! i) = 30000
                    \<and> end_ms (segs2 ! i) = start_ms (segs ! i) + 30000)
                 \<and> (from_file e2 (path (segs ! i)) = Some (nat (duration_ms (segs ! i))) \<longrightarrow>
                    segs2 ! i = segs ! i)" if i: "i < length segs" for i
  proof -
    have nth2: "segs2 ! i
           = \<lparr>path = path (segs ! i), start_ms = int i * 30000,
               end_ms = int i * 30000
                  + (case from_file e2 (path (segs ! i)) of Some n \<Rightarrow> int n | None \<Rightarrow> 30000),
               duration_ms = (case from_file e2 (path (segs ! i)) of Some n \<Rightarrow> int n
                              | None \<Rightarrow> 30000)\<rparr>"
      using i by (simp add: segs2_def reuse_segments_nth)
    have nth1: "segs ! i = fresh_segment name (int D) i"
      using i by (simp add: segs)
    have st: "start_ms (segs ! i) = int i * 30000"
      by (simp add: nth1 fresh_segment_fields)
    from i have "int i * 30000 < int D"
      unfolding len n_def by (rule index_below_num_segments)
    then have pos: "0 \<le> duration_ms (segs ! i)"
      "end_ms (segs ! i) = int i * 30000 + duration_ms (segs ! i)"
      by (simp_all add: nth1 fresh_segment_fields)
    have same: "segs2 ! i = segs ! i"
      if "from_file e2 (path (segs ! i)) = Some (nat (duration_ms (segs ! i)))"
      using that pos st by (simp add: nth2)
    show ?thesis
      using same by (simp add: nth2 st)
  qed
  from run len2 p2 s2 each show ?thesis
    unfolding segs2_def[symmetric] by blast
qed

lemma lec65_paths: "map (segment_path_of ''lec1'') [0..<3] = map path lec65_segs"
proof -
  have upt: "[0..<3] = [0, 1, 2::nat]"
    by (simp add: upt_rec)
  show ?thesis
    unfolding upt
    by (simp add: segment_path_of_def segment_dir_of_def os_path_join_def AUDIO_DIR_def
        fmt03_def str_of_nat_small digit_of_def lec65_segs_def numeral_2_eq_2)
qed

lemma lec65_listing_mset: "mset lec65_listing = mset (map path lec65_segs)"
  by (simp add: lec65_listing_def lec65_segs_def)

theorem C7_reuse_after_fresh_witness:
  "\<exists>segs2. segmenter env_lec65_again ''lec1'' (audio_path_of ''lec1.wav'') = Done segs2
           \<and> segs2 = reuse_segments env_lec65_again (map path lec65_segs)
           \<and> length segs2 = length lec65_segs
           \<and> map path segs2 = map path lec65_segs
           \<and> map start_ms segs2 = map start_ms lec65_segs
           \<and> (\<forall>i<length lec65_segs.
                 (\<forall>n. from_file env_lec65_again (path (lec65_segs ! i)) = Some n \<longrightarrow>
                    duration_ms (segs2 ! i) = int n
                    \<and> end_ms (segs2 ! i) = start_ms (lec65_segs ! i) + int n)
                 \<and> (from_file env_lec65_again (path (lec65_segs ! i)) = None \<longrightarrow>
                    duration_ms (segs2 ! i) = 30000
                    \<and> end_ms (segs2 ! i) = start_ms (lec65_segs ! i) + 30000)
                 \<and> (from_file env_lec65_again (path (lec65_segs ! i))
                        = Some (nat (duration_ms (lec65_segs ! i))) \<longrightarrow>
                    segs2 ! i = lec65_segs ! i))"
proof (rule C7_reuse_after_fresh[OF lec65_segments])
  show "segment_glob env_lec65 (segment_dir_of ''lec1'') = []"
    by (simp add: env_lec65_def env0_def)
  show "lec65_segs \<noteq> []"
    by (simp add: lec65_segs_def)
  show "\<not> io_fails env_lec65_again (segment_dir_of ''lec1'')"
    by (simp add: env_lec65_again_def env0_def)
  show "mset (segment_glob env_lec65_again (segment_dir_of ''lec1'')) = mset (map path lec65_segs)"
    by (simp add: env_lec65_again_def env0_def lec65_listing_mset)
qed

text \<open>
  In \<open>env_lec65_again\<close> the second run returns the segments of the first: the probe of
  the last, short artifact succeeds, and the artifact whose probe fails is a full window.
\<close>

lemma lec65_again_segments:
  "segmenter env_lec65_again ''lec1'' (audio_path_of ''lec1.wav'') = Done lec65_segs"
proof -
  have "segmenter env_lec65_again ''lec1'' (audio_path_of ''lec1.wav'')
          = Done (reuse_segments env_lec65_again (map (segment_path_of ''lec1'') [0..<3]))"
    by (rule segmenter_reuse)
       (simp_all add: env_lec65_again_def env0_def lec65_listing_mset lec65_paths)
  also have "reuse_segments env_lec65_again (map (segment_path_of ''lec1'') [0..<3]) = lec65_segs"
    unfolding lec65_paths
    by (simp add: reuse_segments_def reuse_segment_def segment_length_ms_def lec65_segs_def
        env_lec65_again_def env0_def)
  finally show ?thesis .
qed

text \<open>
  Claim C7 as stated promises the end offsets of the first run.  When the probe of the
  last, short artifact fails, the fallback of line 142 takes a full window: the first
  run of \<open>lec1\<close> ends its segments at 30000, 60000 and 65000, the second at 30000, 60000
  and 90000.
\<close>

theorem C7_unprobed_counterexample:
  "segmenter env_lec65 ''lec1'' (audio_path_of ''lec1.wav'') = Done lec65_segs
   \<and> segment_glob env_lec65 (segment_dir_of ''lec1'') = []
   \<and> mset (segment_glob env_lec65_unprobed (segment_dir_of ''lec1'')) = mset (map path lec65_segs)
   \<and> segmenter env_lec65_unprobed ''lec1'' (audio_path_of ''lec1.wav'') = Done lec65_segs_unprobed
   \<and> map end_ms lec65_segs = [30000, 60000, 65000]
   \<and> map end_ms lec65_segs_unprobed = [30000, 60000, 90000]"
proof -
  have a: "segment_glob env_lec65 (segment_dir_of ''lec1'') = []"
    by (simp add: env_lec65_def env0_def)
  have b: "mset (segment_glob env_lec65_unprobed (segment_dir_of ''lec1''))
             = mset (map path lec65_segs)"
    by (simp add: env_lec65_unprobed_def env0_def lec65_listing_mset)
  have c: "map end_ms lec65_segs = [30000, 60000, 65000]"
    by (simp add: lec65_segs_def)
  have "segmenter env_lec65_unprobed ''lec1'' (audio_path_of ''lec1.wav'')
          = Done (reuse_segments env_lec65_unprobed (map (segment_path_of ''lec1'') [0..<3]))"
    by (rule segmenter_reuse)
       (simp_all add: env_lec65_unprobed_def env0_def lec65_listing_mset lec65_paths)
  also have "reuse_segments env_lec65_unprobed (map (segment_path_of ''lec1'') [0..<3])
               = lec65_segs_unprobed"
    unfolding lec65_paths
    by (simp add: reuse_segments_def reuse_segment_def segment_length_ms_def lec65_segs_def
        lec65_segs_unprobed_def env_lec65_unprobed_def env0_def)
  finally have d: "segmenter env_lec65_unprobed ''lec1'' (audio_path_of ''lec1.wav'')
                     = Done lec65_segs_unprobed" .
  have e: "map end_ms lec65_segs_unprobed = [30000, 60000, 90000]"
    by (simp add: lec65_segs_unprobed_def)
  show ?thesis
    by (intro conjI lec65_segments a b d c e)
qed

section \<open>The cleanup filter: claims C2 and C10\<close>

text \<open>
  Claim C2: on the text \<open># <think>\nsecret\n</think>\nVisible text\n\n\n\nMore text\<close> the
  filter should return \<open>\nVisible text\n\nMore text\<close>.  It does not: the two marker lines
  are deleted first (lines 22 and 24), so the paired removal of line 27 finds no marker
  left and the text between the markers stays.  The filter returns
  \<open>\nsecret\n\nVisible text\n\nMore text\<close>.
\<close>

theorem C2_think_example_keeps_secret:
  "clean_content think_example
     = nl @ ''secret'' @ nl @ nl @ ''Visible text'' @ nl @ nl @ ''More text''
   \<and> clean_content think_example \<noteq> think_expected"
  by code_simp

text \<open>
  Claim C10: the output of the filter should hold no \<open><think>\<close> and no \<open></think>\<close>.
  It can: \<open>replace\<close> scans once, and deleting a marker can join the text around it into
  a new marker (line 30).  On \<open><thi<think>nk>\<close> the filter returns \<open><think>\<close>.
\<close>

theorem C10_marker_survives:
  "clean_content ''<thi<think>nk>'' = ''<think>''
   \<and> contains ''<think>'' (clean_content ''<thi<think>nk>'')"
  by code_simp

section \<open>Resume Controller: claim C4\<close>

lemma untranscribed_abc: "untranscribed_files env_abc = [''B.wav'', ''C.wav'']"
  by (simp add: untranscribed_files_def env_abc_def env0_def py_stem_def)

text \<open>With an empty work list the run reports that there is nothing to do; it is no error.\<close>

lemma nothing_to_do:
  "untranscribed_files e = [] \<Longrightarrow>
     continue_transcription e (Some w) = (Message ''All files already transcribed'', [])"
  by (simp add: continue_transcription_def)

text \<open>
  Claim C4: the work list should hold exactly the recordings without a transcript
  artifact, the identifier of a transcript being its stem without the suffix
  \<open>_transcript\<close>.  Line 76 deletes every occurrence of \<open>_transcript\<close>, not the suffix: the
  recording \<open>intro_transcript_demo\<close>, whose transcript
  \<open>intro_transcript_demo_transcript.json\<close> exists, is compared with \<open>intro_demo\<close> and stays
  in the work list.
\<close>

theorem C4_transcribed_recording_listed_again:
  "py_stem ''intro_transcript_demo.wav'' @ ''_transcript.json''
     \<in> set (transcript_glob env_named_transcript)
   \<and> untranscribed_files env_named_transcript = [''intro_transcript_demo.wav'']"
  by (simp add: untranscribed_files_def env_named_transcript_def env0_def py_stem_def)

section \<open>Exceptions of a recording: claim C3\<close>

text \<open>
  An exception that reaches the handler of the recording (here the sort key of a
  foreign file in the segment directory) is recorded in the log.
\<close>

lemma foreign_segment_is_logged:
  "fst (continue_transcription env_foreign_segment (Some failing_model))
     = LogData \<lparr>total_files = 1, success_count = 0,
                results = [Failure ''data/processed/audio/lec1.wav''
                             (ValueError ''segments/notes'')]\<rparr>"
  by code_simp

text \<open>
  The lookup of the reference video stands before the \<open>try\<close>: for a recording whose name
  holds \<open>**\<close> the pattern of line 109 is refused, and the exception leaves the run
  without a log.
\<close>

lemma invalid_pattern_aborts:
  "continue_transcription env_star (Some failing_model)
     = (Uncaught (ValueError ''*a**b*.mp4''), [])"
  by code_simp

text \<open>The audio file \<open>.wav\<close> is its own stem, and its path is not \<open>.wav.wav\<close>.\<close>

lemma dot_wav_recording:
  "py_stem ''.wav'' = ''.wav''
   \<and> audio_path_of ''.wav'' = ''data/processed/audio/.wav''
   \<and> untranscribed_files env_dot_wav = [''.wav'']"
  by (simp add: py_stem_def audio_path_of_def AUDIO_DIR_def untranscribed_files_def
      env_dot_wav_def env0_def)

text \<open>
  Claim C3: a recording whose audio cannot be read or split should be skipped, with an
  error entry in the results of the log, and the run should go on.  The recording is
  skipped and the run goes on, but the handler of line 186 leaves with \<open>continue\<close>
  and appends nothing.  Of the two recordings of \<open>env_unreadable\<close> the log counts both and
  holds one entry, the success of \<open>lec1\<close>; it holds none for \<open>lec0\<close>.
\<close>

theorem C3_unreadable_audio_not_logged:
  "fst (continue_transcription env_unreadable (Some failing_model))
     = LogData \<lparr>total_files = 2, success_count = 1,
                results = [Success (audio_path_of ''lec1.wav'')
                             (transcript_path_of ''lec1'') 0]\<rparr>"
proof -
  have todo: "untranscribed_files env_unreadable = [''lec0.wav'', ''lec1.wav'']"
    by (simp add: untranscribed_files_def env_unreadable_def env0_def)
  have p0: "process_recording env_unreadable failing_model ''lec0.wav'' = Inr (None, None)"
    by (simp add: process_recording_def segmenter_def Let_def env_unreadable_def env0_def
        audio_path_of_def py_stem_def find_video_def possible_video_extensions_def
        path_glob_def contains_def)
  have vid: "find_video env_unreadable (py_stem ''lec1.wav'') (audio_path_of ''lec1.wav'')
               = Inr (audio_path_of ''lec1.wav'')"
    by (simp add: py_stem_lec1 find_video_def possible_video_extensions_def path_glob_def
        contains_def env_unreadable_def env0_def)
  have segs: "segmenter env_unreadable (py_stem ''lec1.wav'') (audio_path_of ''lec1.wav'')
                = Done lec65_segs"
    unfolding py_stem_lec1
    by (rule lec65_segments_any) (simp_all add: env_unreadable_def env0_def)
  have none: "transcribe_segments failing_model lec65_segs = []"
    by (rule transcribe_segments_all_raise) (simp add: failing_model_def)
  have io: "\<not> io_fails env_unreadable TRANSCRIPTS_DIR"
    "\<not> io_fails env_unreadable (transcript_path_of (py_stem ''lec1.wav''))"
    "\<not> io_fails env_unreadable log_path"
    by (simp_all add: env_unreadable_def env0_def)
  have p1: "process_recording env_unreadable failing_model ''lec1.wav''
              = Inr (Some (Success (audio_path_of ''lec1.wav'') (transcript_path_of ''lec1'') 0),
                     Some (transcript_path_of ''lec1'',
                           stitch ''lec1'' (audio_path_of ''lec1.wav'') lec65_segs []))"
    unfolding process_recording_done[OF vid segs io(1,2)] none
    by (simp add: py_stem_lec1 stitch_def py_split_ws_def)
  show ?thesis
    by (simp add: continue_transcription_def todo run_step_def p0 p1 io(3))
qed

end
